theory Spec2Isabelle
  imports Complex_Main "HOL-Library.Word"
begin

section \<open>JavaScript strings and numbers\<close>

text \<open>
  A JavaScript string is a sequence of UTF-16 code units; \<^verbatim>\<open>.length\<close> counts code
  units and \<^verbatim>\<open>split("\n")\<close> cuts at the code unit 10. Paths, session ids, hashes and
  file contents are all such strings. JavaScript numbers that hold line counts,
  timestamps and token counts are integers far below \<open>2 ^ 53\<close>, where double
  arithmetic is exact; they are modelled as \<open>int\<close>.
\<close>

type_synonym code_unit = "16 word"
type_synonym js_string = "code_unit list"

definition js :: "string \<Rightarrow> js_string" where
  "js s = map of_char s"

definition newline :: code_unit where
  "newline = 10"

text \<open>
  A string that is bound to a parameter of an SQL statement reaches the database as
  UTF-8 text. A high surrogate followed by a low one is one character and is kept;
  any other surrogate has no UTF-8 form and becomes U+FFFD. \<open>stored_text\<close> is the
  string that is stored, read back as code units; a string is well formed when it is
  stored as it is.
\<close>

definition is_high_surrogate :: "code_unit \<Rightarrow> bool" where
  "is_high_surrogate c = (0xD800 \<le> c \<and> c \<le> 0xDBFF)"

definition is_low_surrogate :: "code_unit \<Rightarrow> bool" where
  "is_low_surrogate c = (0xDC00 \<le> c \<and> c \<le> 0xDFFF)"

fun stored_text :: "js_string \<Rightarrow> js_string" where
  "stored_text [] = []"
| "stored_text [c] = [if is_high_surrogate c \<or> is_low_surrogate c then 0xFFFD else c]"
| "stored_text (c # c' # cs) =
     (if is_high_surrogate c \<and> is_low_surrogate c' then c # c' # stored_text cs
      else (if is_high_surrogate c \<or> is_low_surrogate c then 0xFFFD else c)
             # stored_text (c' # cs))"


text \<open>\<^verbatim>\<open>String.prototype.split\<close> with a one-unit separator: the empty string gives one
  empty piece, and every occurrence of the separator starts a new piece.\<close>

fun split_str :: "'a \<Rightarrow> 'a list \<Rightarrow> 'a list list" where
  "split_str sep [] = [[]]"
| "split_str sep (c # cs) =
     (if c = sep then [] # split_str sep cs
      else (case split_str sep cs of [] \<Rightarrow> [[c]] | l # ls \<Rightarrow> (c # l) # ls))"

text \<open>Decimal rendering of an integer inside a template literal.\<close>

fun show_nat :: "nat \<Rightarrow> js_string" where
  "show_nat n =
     (if n < 10 then [of_nat (48 + n)]
      else show_nat (n div 10) @ [of_nat (48 + n mod 10)])"

declare show_nat.simps [simp del]

definition number_toString :: "int \<Rightarrow> js_string" where
  "number_toString i = (if i < 0 then js ''-'' @ show_nat (nat (- i)) else show_nat (nat i))"

section \<open>The SQL statements the store issues\<close>

text \<open>
  A table is the list of its rows. The statements of \<^verbatim>\<open>CacheStore\<close> are modelled by
  the list functions below; \<open>key\<close> projects a row to its primary key.
\<close>

definition sql_select :: "('r \<Rightarrow> bool) \<Rightarrow> 'r list \<Rightarrow> 'r list" where
  "sql_select P rows = filter P rows"

definition sql_delete :: "('r \<Rightarrow> bool) \<Rightarrow> 'r list \<Rightarrow> 'r list" where
  "sql_delete P rows = filter (\<lambda>r. \<not> P r) rows"

definition sql_update :: "('r \<Rightarrow> bool) \<Rightarrow> ('r \<Rightarrow> 'r) \<Rightarrow> 'r list \<Rightarrow> 'r list" where
  "sql_update P f rows = map (\<lambda>r. if P r then f r else r) rows"

definition sql_insert_or_ignore :: "('r \<Rightarrow> 'k) \<Rightarrow> 'r \<Rightarrow> 'r list \<Rightarrow> 'r list" where
  "sql_insert_or_ignore key row rows =
     (if filter (\<lambda>r. key r = key row) rows = [] then rows @ [row] else rows)"

definition sql_insert_or_replace :: "('r \<Rightarrow> 'k) \<Rightarrow> 'r \<Rightarrow> 'r list \<Rightarrow> 'r list" where
  "sql_insert_or_replace key row rows = filter (\<lambda>r. key r \<noteq> key row) rows @ [row]"

definition sql_upsert :: "('r \<Rightarrow> 'k) \<Rightarrow> 'r \<Rightarrow> ('r \<Rightarrow> 'r) \<Rightarrow> 'r list \<Rightarrow> 'r list" where
  "sql_upsert key row f rows =
     (if filter (\<lambda>r. key r = key row) rows = [] then rows @ [row]
      else map (\<lambda>r. if key r = key row then f r else r) rows)"

section \<open>The schema\<close>

record file_version =
  fv_path :: js_string
  fv_hash :: js_string
  fv_content :: js_string
  fv_lines :: int
  fv_created_at :: int

record session_read =
  sr_session_id :: js_string
  sr_path :: js_string
  sr_hash :: js_string
  sr_read_at :: int

record stat =
  st_key :: js_string
  st_value :: int

record session_stat =
  ss_session_id :: js_string
  ss_key :: js_string
  ss_value :: int

text \<open>The database file. A table that \<^verbatim>\<open>CREATE TABLE IF NOT EXISTS\<close> has not yet
  created is the empty list. The primary keys are kept by the statements, not by the
  type; \<^verbatim>\<open>INTEGER\<close> columns are \<open>int\<close>, the counters staying far below \<open>2 ^ 63\<close>.\<close>

record database =
  file_versions :: "file_version list"
  session_reads :: "session_read list"
  stats :: "stat list"
  session_stats :: "session_stat list"

definition empty_database :: database where
  "empty_database = \<lparr>file_versions = [], session_reads = [], stats = [], session_stats = []\<rparr>"

definition tokens_saved :: js_string where
  "tokens_saved = js ''tokens_saved''"

definition fv_key :: "file_version \<Rightarrow> js_string \<times> js_string" where
  "fv_key r = (fv_path r, fv_hash r)"

definition sr_key :: "session_read \<Rightarrow> js_string \<times> js_string" where
  "sr_key r = (sr_session_id r, sr_path r)"

definition ss_key_of :: "session_stat \<Rightarrow> js_string \<times> js_string" where
  "ss_key_of r = (ss_session_id r, ss_key r)"

text \<open>\<^verbatim>\<open>SCHEMA\<close>: the four \<^verbatim>\<open>CREATE TABLE IF NOT EXISTS\<close> leave the rows alone; the last
  statement is \<^verbatim>\<open>INSERT OR IGNORE INTO stats (key, value) VALUES ('tokens_saved', 0)\<close>.\<close>

definition SCHEMA :: "database \<Rightarrow> database" where
  "SCHEMA d = d\<lparr>stats := sql_insert_or_ignore st_key \<lparr>st_key = tokens_saved, st_value = 0\<rparr> (stats d)\<rparr>"

section \<open>Types of the SDK\<close>

record FileReadResult =
  cached :: bool
  content :: js_string
  diff :: "js_string option"
  linesChanged :: "int option"
  totalLines :: "int option"
  hash :: js_string

record CacheStats =
  filesTracked :: int
  tokensSaved :: int
  sessionTokensSaved :: int

text \<open>The value \<^verbatim>\<open>computeDiff\<close> returns, with the three fields \<^verbatim>\<open>readFile\<close> reads.\<close>

record DiffResult =
  dr_diff :: js_string
  dr_hasChanges :: bool
  dr_linesChanged :: int

text \<open>
  What \<^verbatim>\<open>cache.ts\<close> imports: \<^verbatim>\<open>resolve\<close> of the \<^verbatim>\<open>path\<close> module, the hexadecimal SHA-256
  digest of the \<^verbatim>\<open>crypto\<close> module, and \<^verbatim>\<open>computeDiff\<close> of \<^verbatim>\<open>differ.js\<close>, of which
  \<^verbatim>\<open>readFile\<close> only reads the result. They are parameters of the model: every theorem
  below holds for all of them.
\<close>

record env =
  resolve :: "js_string \<Rightarrow> js_string"
  sha256_hex :: "js_string \<Rightarrow> js_string"
  computeDiff :: "js_string \<Rightarrow> js_string \<Rightarrow> js_string \<Rightarrow> DiffResult"

datatype error = NotFound | AccessDenied | NotInitialized

text \<open>The file system at the moment of a call: a path is absent, or holds a file
  that cannot be read, or holds text.\<close>

datatype fs_node = Unreadable | Regular js_string

type_synonym filesystem = "js_string \<Rightarrow> fs_node option"

definition statSync :: "filesystem \<Rightarrow> js_string \<Rightarrow> error + unit" where
  "statSync fs p = (case fs p of None \<Rightarrow> Inl NotFound | Some _ \<Rightarrow> Inr ())"

definition readFileSync :: "filesystem \<Rightarrow> js_string \<Rightarrow> error + js_string" where
  "readFileSync fs p =
     (case fs p of None \<Rightarrow> Inl NotFound
      | Some Unreadable \<Rightarrow> Inl AccessDenied
      | Some (Regular c) \<Rightarrow> Inr c)"

section \<open>\<^verbatim>\<open>cache.ts\<close>\<close>

text \<open>\<^verbatim>\<open>Math.ceil(text.length * 0.75)\<close>.\<close>

definition estimateTokens :: "js_string \<Rightarrow> int" where
  "estimateTokens text = \<lceil>real (length text) * 0.75\<rceil>"

text \<open>\<^verbatim>\<open>createHash("sha256").update(content).digest("hex").slice(0, 16)\<close>.\<close>

definition contentHash :: "env \<Rightarrow> js_string \<Rightarrow> js_string" where
  "contentHash E c = take 16 (sha256_hex E c)"

text \<open>A \<^verbatim>\<open>CacheStore\<close> object. Its \<^verbatim>\<open>db\<close> handle is assigned in \<^verbatim>\<open>init\<close> together with
  \<^verbatim>\<open>initialized\<close> and nowhere else, so one flag stands for both.\<close>

record cache_store =
  sessionId :: js_string
  initialized :: bool

definition init :: "cache_store \<Rightarrow> database \<Rightarrow> cache_store \<times> database" where
  "init this d =
     (if initialized this then (this, d)
      else (this\<lparr>initialized := True\<rparr>, SCHEMA d))"

definition getDb :: "cache_store \<Rightarrow> error + unit" where
  "getDb this = (if \<not> initialized this then Inl NotInitialized else Inr ())"

definition addTokensSaved :: "cache_store \<Rightarrow> int \<Rightarrow> database \<Rightarrow> error + database" where
  "addTokensSaved this tokens d =
     (case getDb this of
        Inl e \<Rightarrow> Inl e
      | Inr _ \<Rightarrow>
          Inr (d\<lparr>stats :=
                   sql_update (\<lambda>r. st_key r = tokens_saved)
                     (\<lambda>r. r\<lparr>st_value := st_value r + tokens\<rparr>) (stats d),
                 session_stats :=
                   sql_upsert ss_key_of
                     \<lparr>ss_session_id = stored_text (sessionId this), ss_key = tokens_saved,
                      ss_value = tokens\<rparr>
                     (\<lambda>r. r\<lparr>ss_value := ss_value r + tokens\<rparr>) (session_stats d)\<rparr>))"

text \<open>\<^verbatim>\<open>INSERT OR IGNORE INTO file_versions (path, hash, content, lines, created_at)\<close>:
  the statement \<^verbatim>\<open>readFile\<close> issues on a first read and on a changed read.\<close>

definition insert_or_ignore_file_version ::
  "js_string \<Rightarrow> js_string \<Rightarrow> js_string \<Rightarrow> int \<Rightarrow> int \<Rightarrow> file_version list \<Rightarrow> file_version list" where
  "insert_or_ignore_file_version p h c n t rows =
     sql_insert_or_ignore fv_key
       \<lparr>fv_path = p, fv_hash = h, fv_content = c, fv_lines = n, fv_created_at = t\<rparr> rows"

definition unchanged_message :: "int \<Rightarrow> int \<Rightarrow> js_string" where
  "unchanged_message currentLines tokensSaved' =
     js ''[cachebro: unchanged, '' @ number_toString currentLines @ js '' lines, ''
       @ number_toString tokensSaved' @ js '' tokens saved]''"

text \<open>
  Of the strings \<^verbatim>\<open>readFile\<close> binds to its statements, the hash is hexadecimal digits and
  the content is what decoding UTF-8 has given, so both are stored as they are, and so
  is taken the resolved path. The session id is whatever the caller has chosen: the
  statements see its stored text, here and in \<^verbatim>\<open>addTokensSaved\<close> and \<^verbatim>\<open>getStats\<close>.
\<close>

definition readFile ::
  "env \<Rightarrow> filesystem \<Rightarrow> int \<Rightarrow> cache_store \<Rightarrow> js_string \<Rightarrow> database
     \<Rightarrow> (error + FileReadResult) \<times> cache_store \<times> database" where
  "readFile E fs now this0 filePath d0 =
     (let (this, d) = init this0 d0 in
      case getDb this of
        Inl e \<Rightarrow> (Inl e, this, d)
      | Inr _ \<Rightarrow>
     (let absPath = resolve E filePath in
      case statSync fs absPath of
        Inl e \<Rightarrow> (Inl e, this, d)
      | Inr _ \<Rightarrow>
     (case readFileSync fs absPath of
        Inl e \<Rightarrow> (Inl e, this, d)
      | Inr currentContent \<Rightarrow>
     (let currentHash = contentHash E currentContent;
          currentLines = int (length (split_str newline currentContent));
          lastRead = sql_select
                       (\<lambda>r. sr_session_id r = stored_text (sessionId this) \<and> sr_path r = absPath)
                       (session_reads d)
      in
      case lastRead of
        r0 # _ \<Rightarrow>
          (let lastHash = sr_hash r0 in
           if lastHash = currentHash then
             (let tokensSaved' = estimateTokens currentContent in
              case addTokensSaved this tokensSaved' d of
                Inl e \<Rightarrow> (Inl e, this, d)
              | Inr d1 \<Rightarrow>
                 (let d2 = d1\<lparr>session_reads :=
                             sql_update
                               (\<lambda>r. sr_session_id r = stored_text (sessionId this) \<and>
                                    sr_path r = absPath)
                               (\<lambda>r. r\<lparr>sr_read_at := now\<rparr>) (session_reads d1)\<rparr>
                  in (Inr \<lparr>cached = True,
                           content = unchanged_message currentLines tokensSaved',
                           diff = None,
                           linesChanged = Some 0,
                           totalLines = Some currentLines,
                           hash = currentHash\<rparr>, this, d2)))
           else
             (let oldVersion = sql_select (\<lambda>v. fv_path v = absPath \<and> fv_hash v = lastHash)
                                 (file_versions d);
                  d1 = d\<lparr>file_versions :=
                           insert_or_ignore_file_version absPath currentHash currentContent
                             currentLines now (file_versions d)\<rparr>;
                  d2 = d1\<lparr>session_reads :=
                            sql_update
                              (\<lambda>r. sr_session_id r = stored_text (sessionId this) \<and>
                                   sr_path r = absPath)
                              (\<lambda>r. r\<lparr>sr_hash := currentHash, sr_read_at := now\<rparr>)
                              (session_reads d1)\<rparr>;
                  fallback = (Inr \<lparr>cached = False,
                                   content = currentContent,
                                   diff = None,
                                   linesChanged = None,
                                   totalLines = Some currentLines,
                                   hash = currentHash\<rparr>, this, d2)
              in
              case oldVersion of
                v0 # _ \<Rightarrow>
                  (let oldContent = fv_content v0;
                       diffResult = computeDiff E oldContent currentContent filePath
                   in
                   if dr_hasChanges diffResult then
                     (let fullTokens = estimateTokens currentContent;
                          diffTokens = estimateTokens (dr_diff diffResult);
                          saved = max 0 (fullTokens - diffTokens)
                      in
                      case addTokensSaved this saved d2 of
                        Inl e \<Rightarrow> (Inl e, this, d2)
                      | Inr d3 \<Rightarrow>
                          (Inr \<lparr>cached = True,
                                content = dr_diff diffResult,
                                diff = Some (dr_diff diffResult),
                                linesChanged = Some (dr_linesChanged diffResult),
                                totalLines = Some currentLines,
                                hash = currentHash\<rparr>, this, d3))
                   else fallback)
              | [] \<Rightarrow> fallback))
      | [] \<Rightarrow>
          (let d1 = d\<lparr>file_versions :=
                       insert_or_ignore_file_version absPath currentHash currentContent
                         currentLines now (file_versions d)\<rparr>;
               d2 = d1\<lparr>session_reads :=
                        sql_insert_or_replace sr_key
                          \<lparr>sr_session_id = stored_text (sessionId this), sr_path = absPath,
                           sr_hash = currentHash, sr_read_at = now\<rparr> (session_reads d1)\<rparr>
           in (Inr \<lparr>cached = False,
                    content = currentContent,
                    diff = None,
                    linesChanged = None,
                    totalLines = Some currentLines,
                    hash = currentHash\<rparr>, this, d2))))))"

definition onFileChanged :: "cache_store \<Rightarrow> js_string \<Rightarrow> database \<Rightarrow> cache_store \<times> database" where
  "onFileChanged this filePath d = (this, d)"

definition onFileDeleted ::
  "env \<Rightarrow> cache_store \<Rightarrow> js_string \<Rightarrow> database \<Rightarrow> (error + unit) \<times> cache_store \<times> database" where
  "onFileDeleted E this0 filePath d0 =
     (let (this, d) = init this0 d0 in
      case getDb this of
        Inl e \<Rightarrow> (Inl e, this, d)
      | Inr _ \<Rightarrow>
          (let absPath = resolve E filePath;
               d1 = d\<lparr>file_versions := sql_delete (\<lambda>v. fv_path v = absPath) (file_versions d)\<rparr>;
               d2 = d1\<lparr>session_reads := sql_delete (\<lambda>r. sr_path r = absPath) (session_reads d1)\<rparr>
           in (Inr (), this, d2)))"

text \<open>The two counters as \<^verbatim>\<open>getStats\<close> reads them: the value of the first row the
  query returns, and 0 when it returns none. The session id is bound to the query, so
  the rows are those of its stored text.\<close>

definition global_saved :: "database \<Rightarrow> int" where
  "global_saved d =
     (case sql_select (\<lambda>r. st_key r = tokens_saved) (stats d) of
        [] \<Rightarrow> 0 | r # _ \<Rightarrow> st_value r)"

definition session_saved :: "js_string \<Rightarrow> database \<Rightarrow> int" where
  "session_saved s d =
     (case sql_select (\<lambda>r. ss_session_id r = stored_text s \<and> ss_key r = tokens_saved)
             (session_stats d) of
        [] \<Rightarrow> 0 | r # _ \<Rightarrow> ss_value r)"

definition getStats ::
  "cache_store \<Rightarrow> database \<Rightarrow> (error + CacheStats) \<times> cache_store \<times> database" where
  "getStats this0 d0 =
     (let (this, d) = init this0 d0 in
      case getDb this of
        Inl e \<Rightarrow> (Inl e, this, d)
      | Inr _ \<Rightarrow>
          (Inr \<lparr>filesTracked = int (length (remdups (map fv_path (file_versions d)))),
                tokensSaved = global_saved d,
                sessionTokensSaved = session_saved (sessionId this) d\<rparr>, this, d))"

definition clear :: "cache_store \<Rightarrow> database \<Rightarrow> (error + unit) \<times> cache_store \<times> database" where
  "clear this0 d0 =
     (let (this, d) = init this0 d0 in
      case getDb this of
        Inl e \<Rightarrow> (Inl e, this, d)
      | Inr _ \<Rightarrow>
          (Inr (), this,
           d\<lparr>file_versions := sql_delete (\<lambda>_. True) (file_versions d),
             session_reads := sql_delete (\<lambda>_. True) (session_reads d),
             session_stats := sql_delete (\<lambda>_. True) (session_stats d),
             stats := sql_update (\<lambda>_. True) (\<lambda>r. r\<lparr>st_value := 0\<rparr>) (stats d)\<rparr>))"

section \<open>Notions used to state the properties\<close>

text \<open>\<^verbatim>\<open>currentContent.split("\n").length\<close>.\<close>

definition line_count :: "js_string \<Rightarrow> int" where
  "line_count c = int (length (split_str newline c))"

text \<open>The rows of \<^verbatim>\<open>session_reads\<close> of one session and path, and the rows of
  \<^verbatim>\<open>file_versions\<close> of one path and hash, as the two \<^verbatim>\<open>SELECT\<close>s of \<^verbatim>\<open>readFile\<close>
  return them. Here and in \<open>credit\<close> and \<open>moved\<close> the session id is the one of the
  store; the statements see its stored text.\<close>

definition last_seen :: "js_string \<Rightarrow> js_string \<Rightarrow> database \<Rightarrow> session_read list" where
  "last_seen s ap d =
     sql_select (\<lambda>r. sr_session_id r = stored_text s \<and> sr_path r = ap) (session_reads d)"

definition stored_versions :: "js_string \<Rightarrow> js_string \<Rightarrow> database \<Rightarrow> file_version list" where
  "stored_versions ap h d = sql_select (\<lambda>v. fv_path v = ap \<and> fv_hash v = h) (file_versions d)"

text \<open>The diff \<^verbatim>\<open>readFile\<close> computes on a changed read: against the content of the
  first stored row of the last-seen version, when there is one.\<close>

definition old_diff ::
  "env \<Rightarrow> js_string \<Rightarrow> js_string \<Rightarrow> js_string \<Rightarrow> js_string \<Rightarrow> database \<Rightarrow> DiffResult option" where
  "old_diff E ap lastHash c filePath d =
     (case stored_versions ap lastHash d of
        [] \<Rightarrow> None
      | v0 # _ \<Rightarrow> Some (computeDiff E (fv_content v0) c filePath))"

text \<open>The database a store works on once \<^verbatim>\<open>init\<close> has returned.\<close>

definition opened :: "cache_store \<Rightarrow> database \<Rightarrow> database" where
  "opened this d = (if initialized this then d else SCHEMA d)"

text \<open>The two statements of \<^verbatim>\<open>addTokensSaved\<close>.\<close>

definition credit :: "js_string \<Rightarrow> int \<Rightarrow> database \<Rightarrow> database" where
  "credit s n d =
     d\<lparr>stats := sql_update (\<lambda>r. st_key r = tokens_saved)
                 (\<lambda>r. r\<lparr>st_value := st_value r + n\<rparr>) (stats d),
       session_stats := sql_upsert ss_key_of
                 \<lparr>ss_session_id = stored_text s, ss_key = tokens_saved, ss_value = n\<rparr>
                 (\<lambda>r. r\<lparr>ss_value := ss_value r + n\<rparr>) (session_stats d)\<rparr>"

text \<open>The two statements of the changed branch: store the new version, move the
  session's pointer to it.\<close>

definition moved ::
  "js_string \<Rightarrow> js_string \<Rightarrow> js_string \<Rightarrow> js_string \<Rightarrow> int \<Rightarrow> database \<Rightarrow> database" where
  "moved s ap h c now d =
     d\<lparr>file_versions := insert_or_ignore_file_version ap h c (line_count c) now (file_versions d),
       session_reads := sql_update (\<lambda>r. sr_session_id r = stored_text s \<and> sr_path r = ap)
                          (\<lambda>r. r\<lparr>sr_hash := h, sr_read_at := now\<rparr>) (session_reads d)\<rparr>"

text \<open>The \<^verbatim>\<open>stats\<close> table holds the row that \<^verbatim>\<open>SCHEMA\<close> inserts. A store that has run
  \<^verbatim>\<open>init\<close> works on a database that holds it.\<close>

definition has_counter :: "database \<Rightarrow> bool" where
  "has_counter d = (sql_select (\<lambda>r. st_key r = tokens_saved) (stats d) \<noteq> [])"

definition store_ok :: "cache_store \<Rightarrow> database \<Rightarrow> bool" where
  "store_ok this d = (initialized this \<longrightarrow> has_counter d)"


text \<open>Every session pointer names a stored version of its path.\<close>

definition pointers_valid :: "database \<Rightarrow> bool" where
  "pointers_valid d =
     list_all (\<lambda>r. stored_versions (sr_path r) (sr_hash r) d \<noteq> []) (session_reads d)"

section \<open>Several sessions on one database\<close>

text \<open>
  Every session has its own \<^verbatim>\<open>CacheStore\<close>; all of them are connected to the same
  database file. An operation is run by the store of its session; the file system
  and the clock are whatever they are at that moment, so a \<open>ReadFile\<close> carries them.
\<close>

record system =
  sys_db :: database
  sys_initialized :: "js_string \<Rightarrow> bool"

definition initial_system :: system where
  "initial_system = \<lparr>sys_db = empty_database, sys_initialized = (\<lambda>_. False)\<rparr>"

definition store_of :: "system \<Rightarrow> js_string \<Rightarrow> cache_store" where
  "store_of sys s = \<lparr>sessionId = s, initialized = sys_initialized sys s\<rparr>"

definition commit :: "system \<Rightarrow> cache_store \<times> database \<Rightarrow> system" where
  "commit sys x =
     \<lparr>sys_db = snd x,
      sys_initialized = (sys_initialized sys)(sessionId (fst x) := initialized (fst x))\<rparr>"

datatype op =
    ReadFile js_string js_string filesystem int
  | OnFileChanged js_string js_string
  | OnFileDeleted js_string js_string
  | GetStats js_string
  | Clear js_string

fun step :: "env \<Rightarrow> op \<Rightarrow> system \<Rightarrow> system" where
  "step E (ReadFile s p fs now) sys =
     commit sys (snd (readFile E fs now (store_of sys s) p (sys_db sys)))"
| "step E (OnFileChanged s p) sys = commit sys (onFileChanged (store_of sys s) p (sys_db sys))"
| "step E (OnFileDeleted s p) sys =
     commit sys (snd (onFileDeleted E (store_of sys s) p (sys_db sys)))"
| "step E (GetStats s) sys = commit sys (snd (getStats (store_of sys s) (sys_db sys)))"
| "step E (Clear s) sys = commit sys (snd (clear (store_of sys s) (sys_db sys)))"

fun run :: "env \<Rightarrow> op list \<Rightarrow> system \<Rightarrow> system" where
  "run E [] sys = sys"
| "run E (x # xs) sys = run E xs (step E x sys)"

fun is_clear :: "op \<Rightarrow> bool" where
  "is_clear (Clear s) = True"
| "is_clear _ = False"


section \<open>A concrete world\<close>

text \<open>A small instance of the parameters, on which the theorems are exercised: paths
  are already absolute, the digest of a text is the text, and the diff of two texts is
  the label followed by what the new text has beyond the length of the old one.\<close>

definition env0 :: env where
  "env0 = \<lparr>resolve = (\<lambda>p. p),
         sha256_hex = (\<lambda>c. c),
         computeDiff = (\<lambda>a b l. \<lparr>dr_diff = l @ drop (length a) b,
                                  dr_hasChanges = (a \<noteq> b), dr_linesChanged = 1\<rparr>)\<rparr>"

definition path0 :: js_string where
  "path0 = js ''/p''"

definition sess1 :: js_string where
  "sess1 = js ''s1''"

definition sess2 :: js_string where
  "sess2 = js ''s2''"

definition text1 :: js_string where
  "text1 = js ''a'' @ [newline] @ js ''b'' @ [newline] @ js ''c''"

definition text2 :: js_string where
  "text2 = js ''a'' @ [newline] @ js ''B'' @ [newline] @ js ''c'' @ [newline] @ js ''d''"




definition fs_none :: filesystem where
  "fs_none = (\<lambda>_. None)"

definition fs_with :: "js_string \<Rightarrow> filesystem" where
  "fs_with c = (\<lambda>q. if q = path0 then Some (Regular c) else None)"

definition fresh :: "js_string \<Rightarrow> cache_store" where
  "fresh s = \<lparr>sessionId = s, initialized = False\<rparr>"

text \<open>Session 1 reads the path twice while it holds \<open>text1\<close>, then once more after it
  has been rewritten to \<open>text2\<close>.\<close>

definition read1 :: "(error + FileReadResult) \<times> cache_store \<times> database" where
  "read1 = readFile env0 (fs_with text1) 1 (fresh sess1) path0 empty_database"

definition read2 :: "(error + FileReadResult) \<times> cache_store \<times> database" where
  "read2 = readFile env0 (fs_with text1) 2 (fst (snd read1)) path0 (snd (snd read1))"

definition read3 :: "(error + FileReadResult) \<times> cache_store \<times> database" where
  "read3 = readFile env0 (fs_with text2) 3 (fst (snd read2)) path0 (snd (snd read2))"

text \<open>The database after the first read, with the stored versions of the path removed
  behind the store's back.\<close>

definition purged :: database where
  "purged = (snd (snd read1))\<lparr>file_versions := []\<rparr>"

text \<open>On that database session 1 reads the path, now holding \<open>text2\<close>, twice.\<close>

definition read4 :: "(error + FileReadResult) \<times> cache_store \<times> database" where
  "read4 = readFile env0 (fs_with text2) 2 (fst (snd read1)) path0 purged"

definition read5 :: "(error + FileReadResult) \<times> cache_store \<times> database" where
  "read5 = readFile env0 (fs_with text2) 3 (fst (snd read4)) path0 (snd (snd read4))"

text \<open>The three reads of session 1 as operations on the shared database, and the same
  followed by a deletion notice and a statistics query of session 2.\<close>

definition trace1 :: "op list" where
  "trace1 = [ReadFile sess1 path0 (fs_with text1) 1,
             ReadFile sess1 path0 (fs_with text1) 2,
             ReadFile sess1 path0 (fs_with text2) 3]"


definition trace2 :: "op list" where
  "trace2 = trace1 @ [OnFileDeleted sess2 path0, GetStats sess2]"

section \<open>Stored text\<close>

lemma stored_text_sess1 [simp]: "stored_text sess1 = sess1"
  by (simp add: sess1_def js_def is_high_surrogate_def is_low_surrogate_def)

lemma stored_text_sess2 [simp]: "stored_text sess2 = sess2"
  by (simp add: sess2_def js_def is_high_surrogate_def is_low_surrogate_def)


section \<open>Arithmetic of the estimate\<close>

lemma estimateTokens_code: "estimateTokens t = (3 * int (length t) + 3) div 4"
proof -
  have "real (length t) * 0.75 = of_int (3 * int (length t)) / of_int 4"
    by simp
  then have "estimateTokens t = - (- (3 * int (length t)) div 4)"
    unfolding estimateTokens_def by (simp only: ceiling_divide_eq_div)
  then show ?thesis by linarith
qed

lemma estimateTokens_nonneg: "0 \<le> estimateTokens t"
  by (simp add: estimateTokens_code)

section \<open>Selecting from an updated table\<close>

lemma filter_update_same:
  assumes "\<And>r. P (f r) = P r"
  shows "filter P (map (\<lambda>r. if P r then f r else r) rows) = map f (filter P rows)"
  using assms by (induction rows) auto

lemma filter_update_other:
  assumes "\<And>r. P r \<Longrightarrow> Q (f r) = Q r"
  shows "filter Q (map (\<lambda>r. if P r then f r else r) rows) =
         map (\<lambda>r. if P r then f r else r) (filter Q rows)"
  using assms by (induction rows) auto

section \<open>The branches of \<^verbatim>\<open>readFile\<close>\<close>

lemma init_eq: "init st d = (st\<lparr>initialized := True\<rparr>, opened st d)"
  by (simp add: init_def opened_def)

lemma opened_fields [simp]:
  "file_versions (opened st d) = file_versions d"
  "session_reads (opened st d) = session_reads d"
  "session_stats (opened st d) = session_stats d"
  by (simp_all add: opened_def SCHEMA_def)

lemma addTokensSaved_eq:
  "initialized st \<Longrightarrow> addTokensSaved st n d = Inr (credit (sessionId st) n d)"
  by (simp add: addTokensSaved_def getDb_def credit_def)

lemmas readFile_unfold =
  readFile_def init_eq getDb_def statSync_def readFileSync_def last_seen_def stored_versions_def
  old_diff_def Let_def addTokensSaved_eq line_count_def moved_def

lemma readFile_missing:
  assumes "fs (resolve E p) = None"
  shows "readFile E fs now st p d = (Inl NotFound, st\<lparr>initialized := True\<rparr>, opened st d)"
  using assms by (simp add: readFile_unfold)

lemma readFile_unreadable:
  assumes "fs (resolve E p) = Some Unreadable"
  shows "readFile E fs now st p d = (Inl AccessDenied, st\<lparr>initialized := True\<rparr>, opened st d)"
  using assms by (simp add: readFile_unfold)

lemma readFile_cold:
  assumes "fs (resolve E p) = Some (Regular C)"
    and "last_seen (sessionId st) (resolve E p) d = []"
  shows "readFile E fs now st p d =
     (Inr \<lparr>cached = False, content = C, diff = None, linesChanged = None,
           totalLines = Some (line_count C), hash = contentHash E C\<rparr>,
      st\<lparr>initialized := True\<rparr>,
      (opened st d)\<lparr>
        file_versions := insert_or_ignore_file_version (resolve E p) (contentHash E C) C
           (line_count C) now (file_versions d),
        session_reads := sql_insert_or_replace sr_key
           \<lparr>sr_session_id = stored_text (sessionId st), sr_path = resolve E p,
            sr_hash = contentHash E C, sr_read_at = now\<rparr> (session_reads d)\<rparr>)"
  using assms by (simp add: readFile_unfold)

lemma readFile_unchanged:
  assumes "fs (resolve E p) = Some (Regular C)"
    and "last_seen (sessionId st) (resolve E p) d = r0 # rest"
    and "sr_hash r0 = contentHash E C"
  shows "readFile E fs now st p d =
     (Inr \<lparr>cached = True,
           content = unchanged_message (line_count C) (estimateTokens C),
           diff = None, linesChanged = Some 0,
           totalLines = Some (line_count C), hash = contentHash E C\<rparr>,
      st\<lparr>initialized := True\<rparr>,
      (credit (sessionId st) (estimateTokens C) (opened st d))\<lparr>
        session_reads := sql_update
                               (\<lambda>r. sr_session_id r = stored_text (sessionId st) \<and>
                                    sr_path r = resolve E p)
                               (\<lambda>r. r\<lparr>sr_read_at := now\<rparr>) (session_reads d)\<rparr>)"
  using assms by (simp add: readFile_unfold credit_def)

lemma readFile_diff:
  assumes "fs (resolve E p) = Some (Regular C)"
    and "last_seen (sessionId st) (resolve E p) d = r0 # rest"
    and "sr_hash r0 \<noteq> contentHash E C"
    and "old_diff E (resolve E p) (sr_hash r0) C p d = Some D"
    and "dr_hasChanges D"
  shows "readFile E fs now st p d =
     (Inr \<lparr>cached = True, content = dr_diff D, diff = Some (dr_diff D),
           linesChanged = Some (dr_linesChanged D),
           totalLines = Some (line_count C), hash = contentHash E C\<rparr>,
      st\<lparr>initialized := True\<rparr>,
      credit (sessionId st) (max 0 (estimateTokens C - estimateTokens (dr_diff D)))
        (moved (sessionId st) (resolve E p) (contentHash E C) C now (opened st d)))"
  using assms by (auto simp add: readFile_unfold split: list.splits)

lemma readFile_fallback:
  assumes "fs (resolve E p) = Some (Regular C)"
    and "last_seen (sessionId st) (resolve E p) d = r0 # rest"
    and "sr_hash r0 \<noteq> contentHash E C"
    and "case old_diff E (resolve E p) (sr_hash r0) C p d of
           None \<Rightarrow> True | Some D \<Rightarrow> \<not> dr_hasChanges D"
  shows "readFile E fs now st p d =
     (Inr \<lparr>cached = False, content = C, diff = None, linesChanged = None,
           totalLines = Some (line_count C), hash = contentHash E C\<rparr>,
      st\<lparr>initialized := True\<rparr>,
      moved (sessionId st) (resolve E p) (contentHash E C) C now (opened st d))"
  using assms by (auto simp add: readFile_unfold split: list.splits)

section \<open>The counters\<close>

lemma saved_other_tables [simp]:
  "global_saved (d\<lparr>session_reads := x\<rparr>) = global_saved d"
  "session_saved s (d\<lparr>session_reads := x\<rparr>) = session_saved s d"
  "global_saved (d\<lparr>file_versions := y\<rparr>) = global_saved d"
  "session_saved s (d\<lparr>file_versions := y\<rparr>) = session_saved s d"
  by (simp_all add: global_saved_def session_saved_def)

lemma saved_moved [simp]:
  "global_saved (moved s ap h c now d) = global_saved d"
  "session_saved s' (moved s ap h c now d) = session_saved s' d"
  by (simp_all add: moved_def)

lemma global_saved_opened [simp]: "global_saved (opened st d) = global_saved d"
  by (auto simp: global_saved_def opened_def SCHEMA_def sql_select_def sql_insert_or_ignore_def
      split: list.splits)

lemma session_saved_opened [simp]: "session_saved s (opened st d) = session_saved s d"
  by (simp add: session_saved_def)

lemma has_counter_opened: "store_ok st d \<Longrightarrow> has_counter (opened st d)"
  by (auto simp: store_ok_def has_counter_def opened_def SCHEMA_def sql_select_def
      sql_insert_or_ignore_def)

lemma has_counter_credit: "has_counter d \<Longrightarrow> has_counter (credit s n d)"
  by (simp add: has_counter_def credit_def sql_select_def sql_update_def filter_update_same)

lemma has_counter_moved [simp]: "has_counter (moved s ap h c now d) = has_counter d"
  by (simp add: has_counter_def moved_def)

lemma has_counter_other_tables [simp]:
  "has_counter (d\<lparr>session_reads := x\<rparr>) = has_counter d"
  "has_counter (d\<lparr>file_versions := y\<rparr>) = has_counter d"
  by (simp_all add: has_counter_def)

lemma global_saved_credit:
  assumes "has_counter d"
  shows "global_saved (credit s n d) = global_saved d + n"
proof -
  have "filter (\<lambda>r. st_key r = tokens_saved)
          (map (\<lambda>r. if st_key r = tokens_saved then r\<lparr>st_value := st_value r + n\<rparr> else r) (stats d))
        = map (\<lambda>r. r\<lparr>st_value := st_value r + n\<rparr>) (filter (\<lambda>r. st_key r = tokens_saved) (stats d))"
    by (rule filter_update_same) simp
  with assms show ?thesis
    by (simp add: has_counter_def global_saved_def credit_def sql_select_def sql_update_def
        split: list.splits)
qed

lemma global_saved_credit_le:
  assumes "0 \<le> n"
  shows "global_saved d \<le> global_saved (credit s n d)"
proof (cases "has_counter d")
  case False
  then show ?thesis
    by (simp add: has_counter_def global_saved_def credit_def sql_select_def sql_update_def
        filter_update_same)
next
  case True
  then show ?thesis using assms by (simp add: global_saved_credit)
qed

lemma session_saved_credit_same:
  assumes "stored_text s' = stored_text s"
  shows "session_saved s' (credit s n d) = session_saved s' d + n"
proof -
  let ?P = "\<lambda>r. ss_session_id r = stored_text s \<and> ss_key r = tokens_saved"
  show ?thesis
  proof (cases "filter ?P (session_stats d)")
    case Nil
    then show ?thesis using assms
      by (simp add: session_saved_def credit_def sql_select_def sql_upsert_def ss_key_of_def)
  next
    case (Cons r rs)
    have "filter ?P (map (\<lambda>r. if ?P r then r\<lparr>ss_value := ss_value r + n\<rparr> else r) (session_stats d))
        = map (\<lambda>r. r\<lparr>ss_value := ss_value r + n\<rparr>) (filter ?P (session_stats d))"
      by (rule filter_update_same) simp
    with Cons show ?thesis using assms
      by (simp add: session_saved_def credit_def sql_select_def sql_upsert_def ss_key_of_def)
  qed
qed

lemma session_saved_credit: "session_saved s (credit s n d) = session_saved s d + n"
  by (rule session_saved_credit_same) simp

lemma session_saved_credit_other:
  assumes "stored_text s' \<noteq> stored_text s"
  shows "session_saved s' (credit s n d) = session_saved s' d"
proof -
  let ?Q = "\<lambda>r. ss_session_id r = stored_text s' \<and> ss_key r = tokens_saved"
  let ?P = "\<lambda>r. ss_session_id r = stored_text s \<and> ss_key r = tokens_saved"
  have "filter ?Q (map (\<lambda>r. if ?P r then r\<lparr>ss_value := ss_value r + n\<rparr> else r) (session_stats d))
        = map (\<lambda>r. if ?P r then r\<lparr>ss_value := ss_value r + n\<rparr> else r) (filter ?Q (session_stats d))"
    by (rule filter_update_other) simp
  also have "\<dots> = filter ?Q (session_stats d)"
    using assms by (induction "session_stats d") (auto intro: map_idI)
  finally show ?thesis using assms
    by (simp add: session_saved_def credit_def sql_select_def sql_upsert_def ss_key_of_def)
qed

section \<open>The session pointer after a read\<close>

lemma last_seen_credit [simp]: "last_seen s ap (credit s' n d) = last_seen s ap d"
  by (simp add: last_seen_def credit_def)

lemma last_seen_opened [simp]: "last_seen s ap (opened st d) = last_seen s ap d"
  by (simp add: last_seen_def)

lemma last_seen_moved:
  "last_seen s ap (moved s ap h c now d) =
     map (\<lambda>r. r\<lparr>sr_hash := h, sr_read_at := now\<rparr>) (last_seen s ap d)"
  by (simp add: last_seen_def moved_def sql_select_def sql_update_def filter_update_same)

lemma last_seen_touch:
  "sql_select (\<lambda>r. sr_session_id r = s \<and> sr_path r = ap)
     (sql_update (\<lambda>r. sr_session_id r = s \<and> sr_path r = ap) (\<lambda>r. r\<lparr>sr_read_at := now\<rparr>) rows)
   = map (\<lambda>r. r\<lparr>sr_read_at := now\<rparr>) (sql_select (\<lambda>r. sr_session_id r = s \<and> sr_path r = ap) rows)"
  by (simp add: sql_select_def sql_update_def filter_update_same)

lemma last_seen_replace:
  "sql_select (\<lambda>r. sr_session_id r = s \<and> sr_path r = ap)
     (sql_insert_or_replace sr_key \<lparr>sr_session_id = s, sr_path = ap, sr_hash = h, sr_read_at = now\<rparr> rows)
   = [\<lparr>sr_session_id = s, sr_path = ap, sr_hash = h, sr_read_at = now\<rparr>]"
  by (simp add: sql_select_def sql_insert_or_replace_def sr_key_def)

text \<open>Whatever branch a successful read takes, it leaves the session's pointer at
  the hash of the content it has just read.\<close>

lemma readFile_pointer:
  assumes fs: "fs (resolve E p) = Some (Regular C)"
    and rd: "readFile E fs now st p d = (r, st1, d1)"
  shows "st1 = st\<lparr>initialized := True\<rparr> \<and>
      (\<exists>r0 rest. last_seen (sessionId st) (resolve E p) d1 = r0 # rest \<and> sr_hash r0 = contentHash E C) \<and>
      (store_ok st d \<longrightarrow> has_counter d1)"
proof -
  let ?s = "sessionId st" and ?ap = "resolve E p" and ?h = "contentHash E C"
  show ?thesis
  proof (cases "last_seen ?s ?ap d")
    case Nil
    from readFile_cold [of fs E p C st d now] fs Nil rd show ?thesis
      by (auto simp: last_seen_def last_seen_replace has_counter_opened)
  next
    case (Cons r0 rest)
    show ?thesis
    proof (cases "sr_hash r0 = ?h")
      case True
      from readFile_unchanged [of fs E p C st d r0 rest now] fs rd Cons True show ?thesis
        by (auto simp: last_seen_def last_seen_touch has_counter_opened has_counter_credit)
    next
      case False
      show ?thesis
      proof (cases "old_diff E ?ap (sr_hash r0) C p d")
        case None
        with readFile_fallback [of fs E p C st d r0 rest now] fs False rd Cons show ?thesis
          by (auto simp: last_seen_moved has_counter_opened)
      next
        case (Some D)
        show ?thesis
        proof (cases "dr_hasChanges D")
          case True
          from readFile_diff [of fs E p C st d r0 rest D now] fs False Some True rd Cons
          show ?thesis
            by (auto simp: last_seen_moved has_counter_opened has_counter_credit)
        next
          case F: False
          with readFile_fallback [of fs E p C st d r0 rest now] fs False Some rd Cons
          show ?thesis
            by (auto simp: last_seen_moved has_counter_opened)
        qed
      qed
    qed
  qed
qed

section \<open>Reading twice\<close>

text \<open>
  C1. A session reads a path and then reads it again while the file still holds the
  content \<open>C\<close>. Whatever the first read returned, the second returns \<^verbatim>\<open>cached = true\<close>,
  \<^verbatim>\<open>linesChanged = 0\<close>, the unchanged message as content and the hash of \<open>C\<close>, and
  both the global and the session's counter grow by \<open>estimateTokens C\<close>, which is
  \<open>\<lceil>length C * 0.75\<rceil>\<close>.
\<close>

theorem readFile_twice_unchanged:
  assumes "store_ok st d"
    and "fs (resolve E p) = Some (Regular C)"
    and "fs' (resolve E p) = Some (Regular C)"
    and "readFile E fs now st p d = (r1, st1, d1)"
    and "readFile E fs' now' st1 p d1 = (r2, st2, d2)"
  shows "r2 = Inr \<lparr>cached = True,
                   content = unchanged_message (line_count C) (estimateTokens C),
                   diff = None, linesChanged = Some 0,
                   totalLines = Some (line_count C), hash = contentHash E C\<rparr>
       \<and> global_saved d2 = global_saved d1 + estimateTokens C
       \<and> session_saved (sessionId st) d2 = session_saved (sessionId st) d1 + estimateTokens C
       \<and> estimateTokens C = \<lceil>real (length C) * 0.75\<rceil>"
proof -
  from readFile_pointer [of fs E p C now st d r1 st1 d1] assms(1,2,4)
  obtain r0 rest where st1: "st1 = st\<lparr>initialized := True\<rparr>"
    and ptr: "last_seen (sessionId st1) (resolve E p) d1 = r0 # rest"
    and h: "sr_hash r0 = contentHash E C" and row: "has_counter d1"
    by auto
  have op: "opened st1 d1 = d1" by (simp add: opened_def st1)
  have est: "estimateTokens C = \<lceil>real (length C) * 0.75\<rceil>"
    by (simp only: estimateTokens_def)
  from readFile_unchanged [of fs' E p C st1 d1 r0 rest now'] assms(3,5) ptr h st1 op row
  have "r2 = Inr \<lparr>cached = True,
                   content = unchanged_message (line_count C) (estimateTokens C),
                   diff = None, linesChanged = Some 0,
                   totalLines = Some (line_count C), hash = contentHash E C\<rparr>
       \<and> global_saved d2 = global_saved d1 + estimateTokens C
       \<and> session_saved (sessionId st) d2 = session_saved (sessionId st) d1 + estimateTokens C"
    by (auto simp: global_saved_credit session_saved_credit)
  with est show ?thesis by blast
qed


lemmas world_defs = env0_def path0_def text1_def text2_def fs_none_def
  fs_with_def fresh_def js_def newline_def tokens_saved_def empty_database_def

lemmas eval_defs = readFile_def init_def getDb_def statSync_def readFileSync_def SCHEMA_def
  addTokensSaved_def insert_or_ignore_file_version_def sql_select_def sql_update_def
  sql_delete_def sql_insert_or_ignore_def sql_insert_or_replace_def sql_upsert_def
  fv_key_def sr_key_def ss_key_of_def contentHash_def Let_def

lemma read1_eval:
  "read1 =
    (Inr \<lparr>cached = False, content = text1, diff = None, linesChanged = None,
          totalLines = Some 3, hash = text1\<rparr>,
     \<lparr>sessionId = sess1, initialized = True\<rparr>,
     \<lparr>file_versions = [\<lparr>fv_path = path0, fv_hash = text1, fv_content = text1, fv_lines = 3,
                         fv_created_at = 1\<rparr>],
      session_reads = [\<lparr>sr_session_id = sess1, sr_path = path0, sr_hash = text1, sr_read_at = 1\<rparr>],
      stats = [\<lparr>st_key = tokens_saved, st_value = 0\<rparr>],
      session_stats = []\<rparr>)"
  by (simp add: read1_def eval_defs world_defs)

theorem readFile_twice_unchanged_witness:
  "store_ok (fresh sess1) empty_database
   \<and> fs_with text1 (resolve env0 path0) = Some (Regular text1)
   \<and> readFile env0 (fs_with text1) 1 (fresh sess1) path0 empty_database = read1
   \<and> readFile env0 (fs_with text1) 2 (fst (snd read1)) path0 (snd (snd read1)) = read2
   \<and> fst read2 = Inr \<lparr>cached = True,
                       content = js ''[cachebro: unchanged, 3 lines, 4 tokens saved]'',
                       diff = None, linesChanged = Some 0, totalLines = Some 3, hash = text1\<rparr>
   \<and> global_saved (snd (snd read1)) = 0 \<and> global_saved (snd (snd read2)) = 4
   \<and> session_saved sess1 (snd (snd read1)) = 0 \<and> session_saved sess1 (snd (snd read2)) = 4"
  using readFile_twice_unchanged [of "fresh sess1" empty_database "fs_with text1" env0 path0 text1
      "fs_with text1" 1 "fst read1" "fst (snd read1)" "snd (snd read1)"
      2 "fst read2" "fst (snd read2)" "snd (snd read2)"]
  by (simp add: read1_def [symmetric] read2_def [symmetric])
     (simp add: read1_eval store_ok_def fresh_def env0_def fs_with_def contentHash_def
       line_count_def unchanged_message_def number_toString_def show_nat.simps
       estimateTokens_code global_saved_def session_saved_def sql_select_def
       text1_def js_def newline_def)

lemma read2_eval:
  "read2 =
    (Inr \<lparr>cached = True, content = js ''[cachebro: unchanged, 3 lines, 4 tokens saved]'',
          diff = None, linesChanged = Some 0, totalLines = Some 3, hash = text1\<rparr>,
     \<lparr>sessionId = sess1, initialized = True\<rparr>,
     \<lparr>file_versions = [\<lparr>fv_path = path0, fv_hash = text1, fv_content = text1, fv_lines = 3,
                         fv_created_at = 1\<rparr>],
      session_reads = [\<lparr>sr_session_id = sess1, sr_path = path0, sr_hash = text1, sr_read_at = 2\<rparr>],
      stats = [\<lparr>st_key = tokens_saved, st_value = 4\<rparr>],
      session_stats = [\<lparr>ss_session_id = sess1, ss_key = tokens_saved, ss_value = 4\<rparr>]\<rparr>)"
  by (simp add: read2_def read1_eval)
     (simp add: eval_defs world_defs unchanged_message_def number_toString_def show_nat.simps
        estimateTokens_code)

lemma read3_eval:
  "read3 =
    (Inr \<lparr>cached = True, content = path0 @ [newline] @ js ''d'',
          diff = Some (path0 @ [newline] @ js ''d''), linesChanged = Some 1,
          totalLines = Some 4, hash = text2\<rparr>,
     \<lparr>sessionId = sess1, initialized = True\<rparr>,
     \<lparr>file_versions = [\<lparr>fv_path = path0, fv_hash = text1, fv_content = text1, fv_lines = 3,
                         fv_created_at = 1\<rparr>,
                       \<lparr>fv_path = path0, fv_hash = text2, fv_content = text2, fv_lines = 4,
                         fv_created_at = 3\<rparr>],
      session_reads = [\<lparr>sr_session_id = sess1, sr_path = path0, sr_hash = text2, sr_read_at = 3\<rparr>],
      stats = [\<lparr>st_key = tokens_saved, st_value = 7\<rparr>],
      session_stats = [\<lparr>ss_session_id = sess1, ss_key = tokens_saved, ss_value = 7\<rparr>]\<rparr>)"
  by (simp add: read3_def read2_eval)
     (simp add: eval_defs world_defs estimateTokens_code)

section \<open>A changed file\<close>

text \<open>
  C2. The session last saw a hash other than the current one, the version it saw is
  still stored, and \<^verbatim>\<open>computeDiff\<close> of that version's content and the current content
  reports changes. Then \<^verbatim>\<open>readFile\<close> returns \<^verbatim>\<open>cached = true\<close> with the diff text as
  \<^verbatim>\<open>content\<close> and as \<^verbatim>\<open>diff\<close>, the diff's \<^verbatim>\<open>linesChanged\<close>, the line count of the current
  content, and both counters grow by
  \<open>max 0 (estimateTokens current - estimateTokens diffText)\<close>.
\<close>

theorem readFile_changed_diff:
  assumes "store_ok st d"
    and "fs (resolve E p) = Some (Regular C)"
    and "last_seen (sessionId st) (resolve E p) d = r0 # rest"
    and "sr_hash r0 \<noteq> contentHash E C"
    and "stored_versions (resolve E p) (sr_hash r0) d = v0 # vs"
    and "D = computeDiff E (fv_content v0) C p"
    and "dr_hasChanges D"
    and "readFile E fs now st p d = (r, st', d')"
  shows "r = Inr \<lparr>cached = True, content = dr_diff D, diff = Some (dr_diff D),
                  linesChanged = Some (dr_linesChanged D),
                  totalLines = Some (line_count C), hash = contentHash E C\<rparr>
       \<and> global_saved d' = global_saved d + max 0 (estimateTokens C - estimateTokens (dr_diff D))
       \<and> session_saved (sessionId st) d' =
           session_saved (sessionId st) d + max 0 (estimateTokens C - estimateTokens (dr_diff D))"
proof -
  from assms(5,6) have od: "old_diff E (resolve E p) (sr_hash r0) C p d = Some D"
    by (simp add: old_diff_def)
  from assms(1) have "has_counter (moved (sessionId st) (resolve E p) (contentHash E C) C now (opened st d))"
    by (simp add: has_counter_opened)
  with readFile_diff [of fs E p C st d r0 rest D now] assms(2,3,4,7,8) od show ?thesis
    by (auto simp: global_saved_credit session_saved_credit)
qed

theorem readFile_changed_diff_witness:
  "store_ok (fst (snd read2)) (snd (snd read2))
   \<and> fs_with text2 (resolve env0 path0) = Some (Regular text2)
   \<and> last_seen sess1 path0 (snd (snd read2)) =
       [\<lparr>sr_session_id = sess1, sr_path = path0, sr_hash = text1, sr_read_at = 2\<rparr>]
   \<and> text1 \<noteq> contentHash env0 text2
   \<and> stored_versions path0 text1 (snd (snd read2)) =
       [\<lparr>fv_path = path0, fv_hash = text1, fv_content = text1, fv_lines = 3, fv_created_at = 1\<rparr>]
   \<and> dr_hasChanges (computeDiff env0 text1 text2 path0)
   \<and> fst read3 = Inr \<lparr>cached = True, content = path0 @ [newline] @ js ''d'',
                       diff = Some (path0 @ [newline] @ js ''d''), linesChanged = Some 1,
                       totalLines = Some 4, hash = text2\<rparr>
   \<and> global_saved (snd (snd read2)) = 4 \<and> global_saved (snd (snd read3)) = 7
   \<and> session_saved sess1 (snd (snd read2)) = 4 \<and> session_saved sess1 (snd (snd read3)) = 7"
  using readFile_changed_diff [of "fst (snd read2)" "snd (snd read2)" "fs_with text2" env0 path0
      text2 "\<lparr>sr_session_id = sess1, sr_path = path0, sr_hash = text1, sr_read_at = 2\<rparr>" "[]"
      "\<lparr>fv_path = path0, fv_hash = text1, fv_content = text1, fv_lines = 3, fv_created_at = 1\<rparr>"
      "[]" "computeDiff env0 text1 text2 path0" 3 "fst read3" "fst (snd read3)" "snd (snd read3)"]
  by (simp add: read3_def [symmetric])
     (simp add: read2_eval read3_eval store_ok_def has_counter_def last_seen_def
        stored_versions_def global_saved_def session_saved_def sql_select_def contentHash_def
        env0_def fs_with_def text1_def text2_def js_def newline_def)


lemma purged_eval:
  "purged =
     \<lparr>file_versions = [],
      session_reads = [\<lparr>sr_session_id = sess1, sr_path = path0, sr_hash = text1, sr_read_at = 1\<rparr>],
      stats = [\<lparr>st_key = tokens_saved, st_value = 0\<rparr>],
      session_stats = []\<rparr>"
  by (simp add: purged_def read1_eval)

lemma read4_eval:
  "read4 =
    (Inr \<lparr>cached = False, content = text2, diff = None, linesChanged = None,
          totalLines = Some 4, hash = text2\<rparr>,
     \<lparr>sessionId = sess1, initialized = True\<rparr>,
     \<lparr>file_versions = [\<lparr>fv_path = path0, fv_hash = text2, fv_content = text2, fv_lines = 4,
                         fv_created_at = 2\<rparr>],
      session_reads = [\<lparr>sr_session_id = sess1, sr_path = path0, sr_hash = text2, sr_read_at = 2\<rparr>],
      stats = [\<lparr>st_key = tokens_saved, st_value = 0\<rparr>],
      session_stats = []\<rparr>)"
  by (simp add: read4_def purged_eval read1_eval)
     (simp add: eval_defs world_defs)

lemma read5_eval:
  "read5 =
    (Inr \<lparr>cached = True, content = js ''[cachebro: unchanged, 4 lines, 6 tokens saved]'',
          diff = None, linesChanged = Some 0, totalLines = Some 4, hash = text2\<rparr>,
     \<lparr>sessionId = sess1, initialized = True\<rparr>,
     \<lparr>file_versions = [\<lparr>fv_path = path0, fv_hash = text2, fv_content = text2, fv_lines = 4,
                         fv_created_at = 2\<rparr>],
      session_reads = [\<lparr>sr_session_id = sess1, sr_path = path0, sr_hash = text2, sr_read_at = 3\<rparr>],
      stats = [\<lparr>st_key = tokens_saved, st_value = 6\<rparr>],
      session_stats = [\<lparr>ss_session_id = sess1, ss_key = tokens_saved, ss_value = 6\<rparr>]\<rparr>)"
  by (simp add: read5_def read4_eval)
     (simp add: eval_defs world_defs unchanged_message_def number_toString_def show_nat.simps
        estimateTokens_code)

text \<open>
  C3. The session last saw a hash other than the current one, and either no row of
  the version it saw is stored or \<^verbatim>\<open>computeDiff\<close> reports no changes. Then \<^verbatim>\<open>readFile\<close>
  returns the result of a first read (\<^verbatim>\<open>cached = false\<close>, the full content, the current
  hash and line count), the \<^verbatim>\<open>session_stats\<close> table is untouched, and neither the global
  counter nor the counter of any session changes.
\<close>

theorem readFile_changed_fallback:
  assumes "fs (resolve E p) = Some (Regular C)"
    and "last_seen (sessionId st) (resolve E p) d = r0 # rest"
    and "sr_hash r0 \<noteq> contentHash E C"
    and "case stored_versions (resolve E p) (sr_hash r0) d of
           [] \<Rightarrow> True
         | v0 # _ \<Rightarrow> \<not> dr_hasChanges (computeDiff E (fv_content v0) C p)"
    and "readFile E fs now st p d = (r, st', d')"
  shows "r = Inr \<lparr>cached = False, content = C, diff = None, linesChanged = None,
                  totalLines = Some (line_count C), hash = contentHash E C\<rparr>
       \<and> session_stats d' = session_stats d
       \<and> global_saved d' = global_saved d
       \<and> (\<forall>s. session_saved s d' = session_saved s d)"
proof -
  from assms(4) have "case old_diff E (resolve E p) (sr_hash r0) C p d of
           None \<Rightarrow> True | Some D \<Rightarrow> \<not> dr_hasChanges D"
    by (simp add: old_diff_def split: list.splits)
  with readFile_fallback [of fs E p C st d r0 rest now] assms(1,2,3,5) show ?thesis
    by (auto simp: moved_def)
qed

theorem readFile_changed_fallback_witness:
  "fs_with text2 (resolve env0 path0) = Some (Regular text2)
   \<and> last_seen sess1 path0 purged =
       [\<lparr>sr_session_id = sess1, sr_path = path0, sr_hash = text1, sr_read_at = 1\<rparr>]
   \<and> text1 \<noteq> contentHash env0 text2
   \<and> stored_versions path0 text1 purged = []
   \<and> fst read4 = Inr \<lparr>cached = False, content = text2, diff = None, linesChanged = None,
                       totalLines = Some 4, hash = text2\<rparr>
   \<and> session_stats (snd (snd read4)) = session_stats purged
   \<and> global_saved (snd (snd read4)) = 0 \<and> global_saved purged = 0"
  using readFile_changed_fallback [of "fs_with text2" env0 path0 text2
      "fst (snd read1)" purged
      "\<lparr>sr_session_id = sess1, sr_path = path0, sr_hash = text1, sr_read_at = 1\<rparr>" "[]"
      2 "fst read4" "fst (snd read4)" "snd (snd read4)"]
  by (simp add: read4_def [symmetric])
     (simp add: read1_eval read4_eval purged_eval last_seen_def
        stored_versions_def global_saved_def sql_select_def contentHash_def
        env0_def fs_with_def text1_def text2_def js_def newline_def)

text \<open>
  C10. On the changed branch with no stored row of the last-seen version,
  \<^verbatim>\<open>readFile\<close> answers with the full content and \<^verbatim>\<open>cached = false\<close>, yet it has moved
  every pointer row of the session for the path to the current hash. A read of the
  same content that follows at once is therefore answered with \<^verbatim>\<open>cached = true\<close> and
  \<^verbatim>\<open>linesChanged = 0\<close>.
\<close>

theorem readFile_after_fallback:
  assumes "fs (resolve E p) = Some (Regular C)"
    and "last_seen (sessionId st) (resolve E p) d = r0 # rest"
    and "sr_hash r0 \<noteq> contentHash E C"
    and "stored_versions (resolve E p) (sr_hash r0) d = []"
    and "readFile E fs now st p d = (r1, st1, d1)"
    and "fs' (resolve E p) = Some (Regular C)"
    and "readFile E fs' now' st1 p d1 = (r2, st2, d2)"
  shows "r1 = Inr \<lparr>cached = False, content = C, diff = None, linesChanged = None,
                   totalLines = Some (line_count C), hash = contentHash E C\<rparr>
       \<and> last_seen (sessionId st) (resolve E p) d1 \<noteq> []
       \<and> list_all (\<lambda>row. sr_hash row = contentHash E C) (last_seen (sessionId st) (resolve E p) d1)
       \<and> r2 = Inr \<lparr>cached = True,
                   content = unchanged_message (line_count C) (estimateTokens C),
                   diff = None, linesChanged = Some 0,
                   totalLines = Some (line_count C), hash = contentHash E C\<rparr>"
proof -
  let ?s = "sessionId st" and ?ap = "resolve E p" and ?h = "contentHash E C"
  from assms(4) have "case old_diff E ?ap (sr_hash r0) C p d of
           None \<Rightarrow> True | Some D \<Rightarrow> \<not> dr_hasChanges D"
    by (simp add: old_diff_def)
  with readFile_fallback [of fs E p C st d r0 rest now] assms(1,2,3,5)
  have r1: "r1 = Inr \<lparr>cached = False, content = C, diff = None, linesChanged = None,
                   totalLines = Some (line_count C), hash = ?h\<rparr>"
    and st1: "st1 = st\<lparr>initialized := True\<rparr>"
    and d1: "d1 = moved ?s ?ap ?h C now (opened st d)"
    by simp_all
  have ptr: "last_seen ?s ?ap d1 =
      r0\<lparr>sr_hash := ?h, sr_read_at := now\<rparr> # map (\<lambda>r. r\<lparr>sr_hash := ?h, sr_read_at := now\<rparr>) rest"
    by (simp add: d1 last_seen_moved assms(2))
  then have all: "list_all (\<lambda>row. sr_hash row = ?h) (last_seen ?s ?ap d1)"
    by (simp add: list_all_iff)
  from ptr have ptr1: "last_seen (sessionId st1) ?ap d1 =
      r0\<lparr>sr_hash := ?h, sr_read_at := now\<rparr> # map (\<lambda>r. r\<lparr>sr_hash := ?h, sr_read_at := now\<rparr>) rest"
    by (simp add: st1)
  from readFile_unchanged [of fs' E p C st1 d1 "r0\<lparr>sr_hash := ?h, sr_read_at := now\<rparr>"
      "map (\<lambda>r. r\<lparr>sr_hash := ?h, sr_read_at := now\<rparr>) rest" now'] assms(6,7) ptr1
  have "r2 = Inr \<lparr>cached = True,
                   content = unchanged_message (line_count C) (estimateTokens C),
                   diff = None, linesChanged = Some 0,
                   totalLines = Some (line_count C), hash = ?h\<rparr>"
    by simp
  with r1 ptr all show ?thesis by simp
qed

theorem readFile_after_fallback_witness:
  "fs_with text2 (resolve env0 path0) = Some (Regular text2)
   \<and> last_seen sess1 path0 purged =
       [\<lparr>sr_session_id = sess1, sr_path = path0, sr_hash = text1, sr_read_at = 1\<rparr>]
   \<and> text1 \<noteq> contentHash env0 text2
   \<and> stored_versions path0 text1 purged = []
   \<and> fst read4 = Inr \<lparr>cached = False, content = text2, diff = None, linesChanged = None,
                       totalLines = Some 4, hash = text2\<rparr>
   \<and> last_seen sess1 path0 (snd (snd read4)) =
       [\<lparr>sr_session_id = sess1, sr_path = path0, sr_hash = text2, sr_read_at = 2\<rparr>]
   \<and> fst read5 = Inr \<lparr>cached = True,
                       content = js ''[cachebro: unchanged, 4 lines, 6 tokens saved]'',
                       diff = None, linesChanged = Some 0, totalLines = Some 4, hash = text2\<rparr>"
  using readFile_after_fallback [of "fs_with text2" env0 path0 text2
      "fst (snd read1)" purged
      "\<lparr>sr_session_id = sess1, sr_path = path0, sr_hash = text1, sr_read_at = 1\<rparr>" "[]"
      2 "fst read4" "fst (snd read4)" "snd (snd read4)" "fs_with text2"
      3 "fst read5" "fst (snd read5)" "snd (snd read5)"]
  by (simp add: read4_def [symmetric] read5_def [symmetric])
     (simp add: read1_eval read4_eval read5_eval purged_eval last_seen_def
        stored_versions_def sql_select_def contentHash_def
        env0_def fs_with_def text1_def text2_def js_def newline_def)


section \<open>Counting lines\<close>


lemma split_str_plain: "sep \<notin> set l \<Longrightarrow> split_str sep l = [l]"
  by (induction l) auto

lemma split_str_piece:
  "sep \<notin> set l \<Longrightarrow> split_str sep (l @ sep # rest) = l # split_str sep rest"
  by (induction l) auto


lemma line_count_three:
  assumes "newline \<notin> set l1" and "newline \<notin> set l2" and "newline \<notin> set l3"
  shows "line_count (l1 @ newline # l2 @ newline # l3) = 3"
  using assms by (simp add: line_count_def split_str_piece split_str_plain)

text \<open>A text that ends in a newline counts one line more than it has terminated
  lines: the empty piece after the last newline is counted.\<close>

lemma line_count_terminated:
  assumes "newline \<notin> set l1" and "newline \<notin> set l2" and "newline \<notin> set l3"
  shows "line_count (l1 @ newline # l2 @ newline # l3 @ [newline]) = 4"
  using assms by (simp add: line_count_def split_str_piece)








section \<open>A path that does not exist\<close>

lemma SCHEMA_idle: "has_counter d \<Longrightarrow> SCHEMA d = d"
  by (simp add: SCHEMA_def has_counter_def sql_select_def sql_insert_or_ignore_def)

lemma SCHEMA_inserts:
  "\<not> has_counter d \<Longrightarrow> stats (SCHEMA d) = stats d @ [\<lparr>st_key = tokens_saved, st_value = 0\<rparr>]"
  by (simp add: SCHEMA_def has_counter_def sql_select_def sql_insert_or_ignore_def)

text \<open>
  C6, as stated, fails: the first call of a store on a database file that does not hold
  the \<^verbatim>\<open>tokens_saved\<close> row yet runs \<^verbatim>\<open>SCHEMA\<close> in \<^verbatim>\<open>init\<close> before \<^verbatim>\<open>statSync\<close> throws, so the
  \<^verbatim>\<open>stats\<close> table is not what it was before the failed call.
\<close>

theorem readFile_missing_path_counterexample:
  "fs_none (resolve env0 path0) = None
   \<and> fst (readFile env0 fs_none 1 (fresh sess1) path0 empty_database) = Inl NotFound
   \<and> stats empty_database = []
   \<and> stats (snd (snd (readFile env0 fs_none 1 (fresh sess1) path0 empty_database))) =
       [\<lparr>st_key = tokens_saved, st_value = 0\<rparr>]
   \<and> snd (snd (readFile env0 fs_none 1 (fresh sess1) path0 empty_database)) \<noteq> empty_database"
  by (simp add: eval_defs fs_none_def fresh_def env0_def empty_database_def)

text \<open>
  C6, amended. For a path that does not exist, \<^verbatim>\<open>readFile\<close> fails with \<open>NotFound\<close> and
  returns no result. The tables \<^verbatim>\<open>file_versions\<close>, \<^verbatim>\<open>session_reads\<close> and \<^verbatim>\<open>session_stats\<close> are
  what they were. So is the whole database when the store was initialised already or
  the \<^verbatim>\<open>stats\<close> table holds the \<^verbatim>\<open>tokens_saved\<close> row already; otherwise \<^verbatim>\<open>init\<close> has added
  that row with value 0 and nothing else. The counters, as \<^verbatim>\<open>getStats\<close> reads them, are
  what they were in both cases.
\<close>

theorem readFile_missing_path:
  assumes "fs (resolve E p) = None"
    and "readFile E fs now st p d = (r, st', d')"
  shows "r = Inl NotFound
       \<and> file_versions d' = file_versions d
       \<and> session_reads d' = session_reads d
       \<and> session_stats d' = session_stats d
       \<and> (initialized st \<or> has_counter d \<longrightarrow> d' = d)
       \<and> (\<not> initialized st \<and> \<not> has_counter d \<longrightarrow>
            stats d' = stats d @ [\<lparr>st_key = tokens_saved, st_value = 0\<rparr>])
       \<and> global_saved d' = global_saved d
       \<and> (\<forall>s. session_saved s d' = session_saved s d)"
proof -
  from readFile_missing [of fs E p now st d] assms
  have r: "r = Inl NotFound" and d': "d' = opened st d"
    by simp_all
  have "initialized st \<or> has_counter d \<longrightarrow> opened st d = d"
    by (auto simp: opened_def SCHEMA_idle)
  moreover have "\<not> initialized st \<and> \<not> has_counter d \<longrightarrow>
            stats (opened st d) = stats d @ [\<lparr>st_key = tokens_saved, st_value = 0\<rparr>]"
    by (simp add: opened_def SCHEMA_inserts)
  ultimately show ?thesis
    using r d' by simp
qed

theorem readFile_missing_path_witness:
  "fs_none (resolve env0 path0) = None
   \<and> initialized (fst (snd read1))
   \<and> fst (readFile env0 fs_none 2 (fst (snd read1)) path0 (snd (snd read1))) = Inl NotFound
   \<and> snd (snd (readFile env0 fs_none 2 (fst (snd read1)) path0 (snd (snd read1)))) =
       snd (snd read1)
   \<and> \<not> initialized (fresh sess1) \<and> \<not> has_counter empty_database
   \<and> fst (readFile env0 fs_none 1 (fresh sess1) path0 empty_database) = Inl NotFound
   \<and> stats (snd (snd (readFile env0 fs_none 1 (fresh sess1) path0 empty_database))) =
       [\<lparr>st_key = tokens_saved, st_value = 0\<rparr>]
   \<and> global_saved (snd (snd (readFile env0 fs_none 1 (fresh sess1) path0 empty_database))) = 0
   \<and> global_saved empty_database = 0"
  using readFile_missing_path [of fs_none env0 path0 2 "fst (snd read1)" "snd (snd read1)"
      "fst (readFile env0 fs_none 2 (fst (snd read1)) path0 (snd (snd read1)))"
      "fst (snd (readFile env0 fs_none 2 (fst (snd read1)) path0 (snd (snd read1))))"
      "snd (snd (readFile env0 fs_none 2 (fst (snd read1)) path0 (snd (snd read1))))"]
    readFile_missing_path [of fs_none env0 path0 1 "fresh sess1" empty_database
      "fst (readFile env0 fs_none 1 (fresh sess1) path0 empty_database)"
      "fst (snd (readFile env0 fs_none 1 (fresh sess1) path0 empty_database))"
      "snd (snd (readFile env0 fs_none 1 (fresh sess1) path0 empty_database))"]
  by (simp add: read1_eval fs_none_def fresh_def has_counter_def sql_select_def
       empty_database_def global_saved_def)

section \<open>What each operation does to the database\<close>

lemma readFile_db_cases [case_names error cold unchanged diff fallback]:
  obtains
    (error) "snd (snd (readFile E fs now st p d)) = opened st d"
  | (cold) C where "fs (resolve E p) = Some (Regular C)"
      "last_seen (sessionId st) (resolve E p) d = []"
      "snd (snd (readFile E fs now st p d)) =
        (opened st d)\<lparr>
          file_versions := insert_or_ignore_file_version (resolve E p) (contentHash E C) C
             (line_count C) now (file_versions d),
          session_reads := sql_insert_or_replace sr_key
             \<lparr>sr_session_id = stored_text (sessionId st), sr_path = resolve E p,
              sr_hash = contentHash E C, sr_read_at = now\<rparr> (session_reads d)\<rparr>"
  | (unchanged) C where "fs (resolve E p) = Some (Regular C)"
      "snd (snd (readFile E fs now st p d)) =
        (credit (sessionId st) (estimateTokens C) (opened st d))\<lparr>
          session_reads := sql_update
             (\<lambda>r. sr_session_id r = stored_text (sessionId st) \<and> sr_path r = resolve E p)
             (\<lambda>r. r\<lparr>sr_read_at := now\<rparr>) (session_reads d)\<rparr>"
  | (diff) C and D :: DiffResult where "fs (resolve E p) = Some (Regular C)"
      "snd (snd (readFile E fs now st p d)) =
        credit (sessionId st) (max 0 (estimateTokens C - estimateTokens (dr_diff D)))
          (moved (sessionId st) (resolve E p) (contentHash E C) C now (opened st d))"
  | (fallback) C where "fs (resolve E p) = Some (Regular C)"
      "snd (snd (readFile E fs now st p d)) =
        moved (sessionId st) (resolve E p) (contentHash E C) C now (opened st d)"
proof (cases "fs (resolve E p)")
  case None
  then show ?thesis using error by (simp add: readFile_missing)
next
  case (Some node)
  show ?thesis
  proof (cases node)
    case Unreadable
    with Some show ?thesis using error by (simp add: readFile_unreadable)
  next
    case (Regular C)
    with Some have fs: "fs (resolve E p) = Some (Regular C)" by simp
    show ?thesis
    proof (cases "last_seen (sessionId st) (resolve E p) d")
      case Nil
      with fs show ?thesis using cold [of C] by (simp add: readFile_cold)
    next
      case (Cons r0 rest)
      show ?thesis
      proof (cases "sr_hash r0 = contentHash E C")
        case True
        with fs Cons show ?thesis using unchanged [of C]
          by (simp add: readFile_unchanged [of fs E p C st d r0 rest now])
      next
        case False
        show ?thesis
        proof (cases "old_diff E (resolve E p) (sr_hash r0) C p d")
          case None
          with fs Cons False show ?thesis using fallback [of C]
            by (simp add: readFile_fallback [of fs E p C st d r0 rest now])
        next
          case (Some D)
          show ?thesis
          proof (cases "dr_hasChanges D")
            case True
            with fs Cons False Some show ?thesis using diff [of C D]
              by (simp add: readFile_diff [of fs E p C st d r0 rest D now])
          next
            case F: False
            with fs Cons False Some show ?thesis using fallback [of C]
              by (simp add: readFile_fallback [of fs E p C st d r0 rest now])
          qed
        qed
      qed
    qed
  qed
qed

lemma onFileDeleted_db:
  "snd (snd (onFileDeleted E st p d)) =
     (opened st d)\<lparr>
        file_versions := sql_delete (\<lambda>v. fv_path v = resolve E p) (file_versions d),
        session_reads := sql_delete (\<lambda>r. sr_path r = resolve E p) (session_reads d)\<rparr>"
  by (simp add: onFileDeleted_def init_eq getDb_def Let_def)

lemma getStats_db: "snd (snd (getStats st d)) = opened st d"
  by (simp add: getStats_def init_eq getDb_def)

lemma clear_db:
  "snd (snd (clear st d)) =
     (opened st d)\<lparr>
        file_versions := sql_delete (\<lambda>_. True) (file_versions d),
        session_reads := sql_delete (\<lambda>_. True) (session_reads d),
        session_stats := sql_delete (\<lambda>_. True) (session_stats d),
        stats := sql_update (\<lambda>_. True) (\<lambda>r. r\<lparr>st_value := 0\<rparr>) (stats (opened st d))\<rparr>"
  by (simp add: clear_def init_eq getDb_def)

lemma sys_db_commit [simp]: "sys_db (commit sys x) = snd x"
  by (simp add: commit_def)

lemma sessionId_store_of [simp]: "sessionId (store_of sys s) = s"
  by (simp add: store_of_def)

section \<open>Initialised stores work on an initialised database\<close>

lemma has_counter_zeroed:
  "has_counter d \<Longrightarrow>
     has_counter (d\<lparr>stats := sql_update (\<lambda>_. True) (\<lambda>r. r\<lparr>st_value := 0\<rparr>) (stats d)\<rparr>)"
proof -
  have "filter (\<lambda>r. st_key r = tokens_saved)
          (map (\<lambda>r. if True then r\<lparr>st_value := 0\<rparr> else r) (stats d))
        = map (\<lambda>r. if True then r\<lparr>st_value := 0\<rparr> else r)
            (filter (\<lambda>r. st_key r = tokens_saved) (stats d))"
    by (rule filter_update_other) simp
  then show "has_counter d \<Longrightarrow> ?thesis"
    by (simp add: has_counter_def sql_select_def sql_update_def)
qed

lemma readFile_has_counter:
  assumes "store_ok st d"
  shows "has_counter (snd (snd (readFile E fs now st p d)))"
  using assms
  by (cases rule: readFile_db_cases [of E fs now st p d])
     (simp_all add: has_counter_opened has_counter_credit)

lemma onFileDeleted_has_counter:
  "store_ok st d \<Longrightarrow> has_counter (snd (snd (onFileDeleted E st p d)))"
  by (simp add: onFileDeleted_db has_counter_opened)

lemma getStats_has_counter: "store_ok st d \<Longrightarrow> has_counter (snd (snd (getStats st d)))"
  by (simp add: getStats_db has_counter_opened)

lemma clear_has_counter:
  assumes "store_ok st d"
  shows "has_counter (snd (snd (clear st d)))"
proof -
  from assms have "has_counter (opened st d)"
    by (rule has_counter_opened)
  then have "has_counter ((opened st d)\<lparr>stats :=
      sql_update (\<lambda>_. True) (\<lambda>r. r\<lparr>st_value := 0\<rparr>) (stats (opened st d))\<rparr>)"
    by (rule has_counter_zeroed)
  then show ?thesis
    by (simp add: clear_db has_counter_def)
qed

text \<open>In every state the sessions reach from the empty database, the store of every
  session satisfies \<open>store_ok\<close>: the hypothesis of the theorems on the counters holds
  wherever the program can be.\<close>

lemma step_store_ok:
  assumes "\<And>s. store_ok (store_of sys s) (sys_db sys)"
  shows "store_ok (store_of (step E x sys) s) (sys_db (step E x sys))"
proof (cases x)
  case (ReadFile s' p fs now)
  with readFile_has_counter [OF assms [of s'], of E fs now p] show ?thesis
    by (simp add: store_ok_def)
next
  case (OnFileChanged s' p)
  with assms [of s] assms [of s'] show ?thesis
    by (auto simp: onFileChanged_def commit_def store_of_def store_ok_def)
next
  case (OnFileDeleted s' p)
  with onFileDeleted_has_counter [OF assms [of s'], of E p] show ?thesis
    by (simp add: store_ok_def)
next
  case (GetStats s')
  with getStats_has_counter [OF assms [of s']] show ?thesis
    by (simp add: store_ok_def)
next
  case (Clear s')
  with clear_has_counter [OF assms [of s']] show ?thesis
    by (simp add: store_ok_def)
qed

lemma run_store_ok:
  assumes "\<And>s. store_ok (store_of sys s) (sys_db sys)"
  shows "store_ok (store_of (run E ops sys) s) (sys_db (run E ops sys))"
  using assms
proof (induction ops arbitrary: sys s)
  case Nil
  then show ?case by simp
next
  case (Cons x xs)
  show ?case
    unfolding run.simps
    by (rule Cons.IH) (rule step_store_ok, rule Cons.prems)
qed

lemma reachable_store_ok:
  "store_ok (store_of (run E ops initial_system) s) (sys_db (run E ops initial_system))"
  by (rule run_store_ok) (simp add: store_ok_def store_of_def initial_system_def)

section \<open>Inserting a version twice\<close>

lemma insert_version_stored:
  "stored_versions ap h d \<noteq> [] \<Longrightarrow>
     insert_or_ignore_file_version ap h c n t (file_versions d) = file_versions d"
  by (simp add: insert_or_ignore_file_version_def sql_insert_or_ignore_def sql_select_def
      stored_versions_def fv_key_def)

lemma readFile_keeps_stored_version:
  assumes "fs (resolve E q) = Some (Regular c)"
    and "stored_versions (resolve E q) (contentHash E c) d \<noteq> []"
  shows "file_versions (snd (snd (readFile E fs now st q d))) = file_versions d"
proof (cases rule: readFile_db_cases [of E fs now st q d])
  case error
  then show ?thesis by simp
next
  case (cold C)
  with assms show ?thesis by (simp add: insert_version_stored)
next
  case (unchanged C)
  then show ?thesis by (simp add: credit_def)
next
  case (diff C D)
  with assms show ?thesis by (simp add: credit_def moved_def insert_version_stored)
next
  case (fallback C)
  with assms show ?thesis by (simp add: moved_def insert_version_stored)
qed

text \<open>
  C9. \<^verbatim>\<open>INSERT OR IGNORE INTO file_versions\<close> is idempotent. Inserting under a key
  \<open>(p, h)\<close> that has a row leaves the table as it is; and when the key had no row,
  after two inserts, the second with any other content, line count and time, the key
  has exactly one row, the one the first insert wrote. So a \<^verbatim>\<open>readFile\<close> of a content
  whose path and hash are stored leaves \<^verbatim>\<open>file_versions\<close> as it is.
\<close>

theorem insert_or_ignore_file_version_idempotent:
  "(stored_versions p h d \<noteq> [] \<longrightarrow>
      insert_or_ignore_file_version p h c' n' t' (file_versions d) = file_versions d)
   \<and> insert_or_ignore_file_version p h c' n' t'
        (insert_or_ignore_file_version p h c n t rows)
      = insert_or_ignore_file_version p h c n t rows
   \<and> (sql_select (\<lambda>v. fv_path v = p \<and> fv_hash v = h) rows = [] \<longrightarrow>
        sql_select (\<lambda>v. fv_path v = p \<and> fv_hash v = h)
          (insert_or_ignore_file_version p h c' n' t'
             (insert_or_ignore_file_version p h c n t rows))
        = [\<lparr>fv_path = p, fv_hash = h, fv_content = c, fv_lines = n, fv_created_at = t\<rparr>])
   \<and> (fs (resolve E q) = Some (Regular C) \<and>
        stored_versions (resolve E q) (contentHash E C) db \<noteq> [] \<longrightarrow>
        file_versions (snd (snd (readFile E fs now st q db))) = file_versions db)"
proof -
  have noop: "stored_versions p h d \<noteq> [] \<longrightarrow>
      insert_or_ignore_file_version p h c' n' t' (file_versions d) = file_versions d"
    by (simp add: insert_version_stored)
  have twice: "insert_or_ignore_file_version p h c' n' t'
        (insert_or_ignore_file_version p h c n t rows)
      = insert_or_ignore_file_version p h c n t rows"
    by (simp add: insert_or_ignore_file_version_def sql_insert_or_ignore_def fv_key_def)
  have one: "sql_select (\<lambda>v. fv_path v = p \<and> fv_hash v = h) rows = [] \<longrightarrow>
        sql_select (\<lambda>v. fv_path v = p \<and> fv_hash v = h)
          (insert_or_ignore_file_version p h c' n' t'
             (insert_or_ignore_file_version p h c n t rows))
        = [\<lparr>fv_path = p, fv_hash = h, fv_content = c, fv_lines = n, fv_created_at = t\<rparr>]"
    by (simp add: insert_or_ignore_file_version_def sql_insert_or_ignore_def sql_select_def
        fv_key_def)
  have read: "fs (resolve E q) = Some (Regular C) \<and>
        stored_versions (resolve E q) (contentHash E C) db \<noteq> [] \<longrightarrow>
        file_versions (snd (snd (readFile E fs now st q db))) = file_versions db"
    by (simp add: readFile_keeps_stored_version)
  from noop twice one read show ?thesis by blast
qed

text \<open>Session 2 reads the path on the database session 1 has left, at a moment when
  the file holds \<open>text1\<close> again: the version stored at time 1 stays as it is.\<close>

theorem insert_or_ignore_file_version_idempotent_witness:
  "stored_versions path0 text1 (snd (snd read1)) \<noteq> []
   \<and> insert_or_ignore_file_version path0 text1 text2 4 9 (file_versions (snd (snd read1)))
       = file_versions (snd (snd read1))
   \<and> sql_select (\<lambda>v. fv_path v = path0 \<and> fv_hash v = text1) [] = []
   \<and> sql_select (\<lambda>v. fv_path v = path0 \<and> fv_hash v = text1)
        (insert_or_ignore_file_version path0 text1 text2 4 9
           (insert_or_ignore_file_version path0 text1 text1 3 1 []))
      = [\<lparr>fv_path = path0, fv_hash = text1, fv_content = text1, fv_lines = 3, fv_created_at = 1\<rparr>]
   \<and> fs_with text1 (resolve env0 path0) = Some (Regular text1)
   \<and> stored_versions (resolve env0 path0) (contentHash env0 text1) (snd (snd read3)) \<noteq> []
   \<and> file_versions (snd (snd (readFile env0 (fs_with text1) 4 (fresh sess2) path0 (snd (snd read3)))))
      = file_versions (snd (snd read3))"
proof -
  have res: "resolve env0 path0 = path0" "contentHash env0 text1 = text1"
    by (simp_all add: env0_def contentHash_def text1_def js_def)
  have h1: "stored_versions path0 text1 (snd (snd read1)) \<noteq> []"
    by (simp add: read1_eval stored_versions_def sql_select_def)
  have h2: "sql_select (\<lambda>v. fv_path v = path0 \<and> fv_hash v = text1) [] = []"
    by (simp add: sql_select_def)
  have h3: "fs_with text1 (resolve env0 path0) = Some (Regular text1)"
    by (simp add: res fs_with_def)
  have h4: "stored_versions (resolve env0 path0) (contentHash env0 text1) (snd (snd read3)) \<noteq> []"
    by (simp add: res read3_eval stored_versions_def sql_select_def)
  note inst = insert_or_ignore_file_version_idempotent [where p = path0 and h = text1
      and d = "snd (snd read1)" and c' = text2 and n' = 4 and t' = 9 and c = text1 and n = 3
      and t = 1 and rows = "[]" and C = text1 and E = env0 and q = path0
      and fs = "fs_with text1" and db = "snd (snd read3)" and now = 4 and st = "fresh sess2"]
  note c1 = inst [THEN conjunct1, THEN mp, OF h1]
  note c3 = inst [THEN conjunct2, THEN conjunct2, THEN conjunct1, THEN mp, OF h2]
  note c4 = inst [THEN conjunct2, THEN conjunct2, THEN conjunct2, THEN mp, OF conjI [OF h3 h4]]
  from h1 c1 h2 c3 h3 h4 c4 show ?thesis
    by (intro conjI)
qed

section \<open>The counters never go down\<close>

lemma session_saved_credit_le:
  assumes "0 \<le> n"
  shows "session_saved s' d \<le> session_saved s' (credit s n d)"
  using assms
  by (cases "stored_text s' = stored_text s")
     (simp_all add: session_saved_credit_same session_saved_credit_other)

lemma readFile_saved_le:
  "global_saved d \<le> global_saved (snd (snd (readFile E fs now st p d)))
   \<and> session_saved s d \<le> session_saved s (snd (snd (readFile E fs now st p d)))"
proof (cases rule: readFile_db_cases [of E fs now st p d])
  case error
  then show ?thesis by simp
next
  case (cold C)
  then show ?thesis by simp
next
  case (unchanged C)
  have "global_saved (opened st d) \<le> global_saved (credit (sessionId st) (estimateTokens C) (opened st d))"
    by (rule global_saved_credit_le) (rule estimateTokens_nonneg)
  moreover have "session_saved s (opened st d)
      \<le> session_saved s (credit (sessionId st) (estimateTokens C) (opened st d))"
    by (rule session_saved_credit_le) (rule estimateTokens_nonneg)
  ultimately show ?thesis using unchanged by simp
next
  case (diff C D)
  let ?d = "moved (sessionId st) (resolve E p) (contentHash E C) C now (opened st d)"
  let ?n = "max 0 (estimateTokens C - estimateTokens (dr_diff D))"
  have "global_saved ?d \<le> global_saved (credit (sessionId st) ?n ?d)"
    by (rule global_saved_credit_le) simp
  moreover have "session_saved s ?d \<le> session_saved s (credit (sessionId st) ?n ?d)"
    by (rule session_saved_credit_le) simp
  ultimately show ?thesis using diff by simp
next
  case (fallback C)
  then show ?thesis by simp
qed

lemma step_saved_le:
  assumes "\<not> is_clear x"
  shows "global_saved (sys_db sys) \<le> global_saved (sys_db (step E x sys))
       \<and> session_saved s (sys_db sys) \<le> session_saved s (sys_db (step E x sys))"
proof (cases x)
  case (ReadFile s' p fs now)
  then show ?thesis using readFile_saved_le [of "sys_db sys" E fs now "store_of sys s'" p s]
    by simp
next
  case (OnFileChanged s' p)
  then show ?thesis by (simp add: onFileChanged_def)
next
  case (OnFileDeleted s' p)
  then show ?thesis by (simp add: onFileDeleted_db)
next
  case (GetStats s')
  then show ?thesis by (simp add: getStats_db)
next
  case (Clear s')
  with assms show ?thesis by simp
qed

lemma run_saved_le:
  assumes "list_all (\<lambda>x. \<not> is_clear x) ops"
  shows "global_saved (sys_db sys) \<le> global_saved (sys_db (run E ops sys))
       \<and> session_saved s (sys_db sys) \<le> session_saved s (sys_db (run E ops sys))"
  using assms
proof (induction ops arbitrary: sys)
  case Nil
  then show ?case by simp
next
  case (Cons x xs)
  from Cons.prems have x: "\<not> is_clear x" and xs: "list_all (\<lambda>x. \<not> is_clear x) xs"
    by simp_all
  from step_saved_le [OF x, of sys E s] Cons.IH [OF xs, of "step E x sys"]
  show ?case by simp
qed

lemma clear_saved_zero:
  "global_saved (snd (snd (clear st d))) = 0 \<and> session_saved s (snd (snd (clear st d))) = 0"
proof -
  let ?rows = "filter (\<lambda>r. st_key r = tokens_saved) (stats (opened st d))"
  have "filter (\<lambda>r. st_key r = tokens_saved)
          (map (\<lambda>r. if True then r\<lparr>st_value := 0\<rparr> else r) (stats (opened st d)))
        = map (\<lambda>r. if True then r\<lparr>st_value := 0\<rparr> else r) ?rows"
    by (rule filter_update_other) simp
  then have "global_saved (snd (snd (clear st d))) = 0"
    by (cases ?rows) (simp_all add: clear_db global_saved_def sql_select_def sql_update_def)
  moreover have "session_saved s (snd (snd (clear st d))) = 0"
    by (simp add: clear_db session_saved_def sql_select_def sql_delete_def)
  ultimately show ?thesis by simp
qed

text \<open>
  C7. The global counter and the counter of every session are zero in the database
  a first store starts from; no sequence of \<^verbatim>\<open>readFile\<close>, \<^verbatim>\<open>onFileChanged\<close>,
  \<^verbatim>\<open>onFileDeleted\<close> and \<^verbatim>\<open>getStats\<close> calls, by any sessions, lowers either of them, so
  every amount added is non-negative, as are the two amounts \<^verbatim>\<open>readFile\<close> passes to
  \<^verbatim>\<open>addTokensSaved\<close>; and \<^verbatim>\<open>clear\<close> sets both to zero.
\<close>

theorem savings_counters_monotone:
  "global_saved (sys_db initial_system) = 0
   \<and> session_saved s (sys_db initial_system) = 0
   \<and> (list_all (\<lambda>x. \<not> is_clear x) ops \<longrightarrow>
        global_saved (sys_db sys) \<le> global_saved (sys_db (run E ops sys))
        \<and> session_saved s (sys_db sys) \<le> session_saved s (sys_db (run E ops sys)))
   \<and> 0 \<le> estimateTokens c
   \<and> 0 \<le> max 0 (estimateTokens c - estimateTokens c')
   \<and> global_saved (sys_db (step E (Clear s') sys')) = 0
   \<and> session_saved s (sys_db (step E (Clear s') sys')) = 0"
proof -
  have "global_saved (sys_db initial_system) = 0 \<and> session_saved s (sys_db initial_system) = 0"
    by (simp add: initial_system_def empty_database_def global_saved_def session_saved_def
        sql_select_def)
  moreover have "global_saved (sys_db (step E (Clear s') sys')) = 0
      \<and> session_saved s (sys_db (step E (Clear s') sys')) = 0"
    using clear_saved_zero [of "store_of sys' s'" "sys_db sys'" s] by simp
  ultimately show ?thesis
    using run_saved_le [of ops sys E s] estimateTokens_nonneg [of c] by simp
qed


section \<open>Pointers and versions\<close>

lemma stored_versions_iff:
  "stored_versions ap h d \<noteq> [] \<longleftrightarrow> (ap, h) \<in> fv_key ` set (file_versions d)"
  by (auto simp: stored_versions_def sql_select_def filter_empty_conv fv_key_def image_iff)

lemma pointers_valid_iff:
  "pointers_valid d \<longleftrightarrow>
     (\<forall>r \<in> set (session_reads d). (sr_path r, sr_hash r) \<in> fv_key ` set (file_versions d))"
  by (simp add: pointers_valid_def list_all_iff stored_versions_iff)


lemma keys_insert_or_ignore:
  "key ` set (sql_insert_or_ignore key row rows) = insert (key row) (key ` set rows)"
  by (auto simp: sql_insert_or_ignore_def filter_empty_conv image_iff; metis)

lemma keys_insert_version:
  "fv_key ` set (insert_or_ignore_file_version ap h c n t rows) = insert (ap, h) (fv_key ` set rows)"
  by (simp add: insert_or_ignore_file_version_def keys_insert_or_ignore) (simp add: fv_key_def)

lemma set_insert_or_replace:
  "set (sql_insert_or_replace key row rows) = insert row {r \<in> set rows. key r \<noteq> key row}"
  by (auto simp: sql_insert_or_replace_def)

lemma set_update:
  "set (sql_update P f rows) = (\<lambda>r. if P r then f r else r) ` set rows"
  by (simp add: sql_update_def)

lemma set_delete: "set (sql_delete P rows) = {r \<in> set rows. \<not> P r}"
  by (simp add: sql_delete_def)

lemma pointers_valid_opened [simp]: "pointers_valid (opened st d) = pointers_valid d"
  by (simp add: pointers_valid_iff)

lemma pointers_valid_credit [simp]: "pointers_valid (credit s n d) = pointers_valid d"
  by (simp add: pointers_valid_iff credit_def)

lemma pointers_valid_moved:
  assumes "pointers_valid d"
  shows "pointers_valid (moved s ap h c now d)"
  using assms by (auto simp: pointers_valid_iff moved_def keys_insert_version set_update)

lemma readFile_pointers_valid:
  assumes "pointers_valid d"
  shows "pointers_valid (snd (snd (readFile E fs now st p d)))"
proof (cases rule: readFile_db_cases [of E fs now st p d])
  case error
  with assms show ?thesis by simp
next
  case (cold C)
  with assms show ?thesis
    by (auto simp: pointers_valid_iff keys_insert_version set_insert_or_replace)
next
  case (unchanged C)
  with assms show ?thesis
    by (auto simp: pointers_valid_iff set_update credit_def)
next
  case (diff C D)
  with assms show ?thesis by (simp add: pointers_valid_moved)
next
  case (fallback C)
  with assms show ?thesis by (simp add: pointers_valid_moved)
qed

lemma onFileDeleted_pointers_valid:
  assumes "pointers_valid d"
  shows "pointers_valid (snd (snd (onFileDeleted E st p d)))"
proof -
  have "\<forall>r \<in> set (session_reads d). sr_path r \<noteq> resolve E p \<longrightarrow>
          (sr_path r, sr_hash r) \<in> fv_key ` {v \<in> set (file_versions d). fv_path v \<noteq> resolve E p}"
    using assms by (fastforce simp: pointers_valid_iff fv_key_def image_iff)
  then show ?thesis
    by (simp add: pointers_valid_iff onFileDeleted_db set_delete)
qed

lemma clear_pointers_valid: "pointers_valid (snd (snd (clear st d)))"
  by (simp add: pointers_valid_iff clear_db sql_delete_def)

lemma step_pointers_valid:
  assumes "pointers_valid (sys_db sys)"
  shows "pointers_valid (sys_db (step E x sys))"
proof (cases x)
  case (ReadFile s p fs now)
  with assms show ?thesis by (simp add: readFile_pointers_valid)
next
  case (OnFileChanged s p)
  with assms show ?thesis by (simp add: onFileChanged_def)
next
  case (OnFileDeleted s p)
  with assms show ?thesis by (simp add: onFileDeleted_pointers_valid)
next
  case (GetStats s)
  with assms show ?thesis by (simp add: getStats_db)
next
  case (Clear s)
  then show ?thesis by (simp add: clear_pointers_valid)
qed

lemma run_pointers_valid:
  assumes "pointers_valid (sys_db sys)"
  shows "pointers_valid (sys_db (run E ops sys))"
  using assms by (induction ops arbitrary: sys) (simp_all add: step_pointers_valid)

text \<open>
  C8. In every state that sequences of \<^verbatim>\<open>readFile\<close>, \<^verbatim>\<open>onFileChanged\<close>, \<^verbatim>\<open>onFileDeleted\<close>,
  \<^verbatim>\<open>getStats\<close> and \<^verbatim>\<open>clear\<close> calls by any sessions reach from the empty database, every
  row of \<^verbatim>\<open>session_reads\<close> has a row of \<^verbatim>\<open>file_versions\<close> with its path and hash; and
  each single operation keeps that property of any database that has it.
\<close>

theorem session_pointers_refer_to_versions:
  "pointers_valid (sys_db (run E ops initial_system))
   \<and> (pointers_valid (sys_db sys) \<longrightarrow> pointers_valid (sys_db (step E x sys)))"
proof -
  have "pointers_valid (sys_db initial_system)"
    by (simp add: pointers_valid_def initial_system_def empty_database_def)
  then show ?thesis
    by (simp add: run_pointers_valid step_pointers_valid)
qed

section \<open>Sessions do not see each other's reads\<close>












section \<open>The concrete world, run\<close>

lemma sessions_differ: "sess1 \<noteq> sess2"
  by (simp add: sess1_def sess2_def js_def)

lemma texts_differ: "text1 \<noteq> text2"
  by (simp add: text1_def text2_def js_def newline_def)

lemma after_trace1:
  "sys_db (run env0 trace1 initial_system) = snd (snd read3)"
  "sys_initialized (run env0 trace1 initial_system) sess2 = False"
proof -
  define a where "a = step env0 (ReadFile sess1 path0 (fs_with text1) 1) initial_system"
  define b where "b = step env0 (ReadFile sess1 path0 (fs_with text1) 2) a"
  define c where "c = step env0 (ReadFile sess1 path0 (fs_with text2) 3) b"
  have r1: "readFile env0 (fs_with text1) 1 (store_of initial_system sess1) path0
              (sys_db initial_system) = read1"
    by (simp add: read1_def store_of_def initial_system_def fresh_def)
  have a: "a = commit initial_system (snd read1)"
    by (simp only: a_def step.simps r1)
  have a1: "sys_db a = snd (snd read1)"
    by (simp only: a sys_db_commit)
  have a2: "store_of a sess1 = fst (snd read1)"
    unfolding a by (simp add: commit_def store_of_def read1_eval)
  have a3: "sys_initialized a sess2 = False"
    unfolding a using sessions_differ by (simp add: commit_def read1_eval initial_system_def)
  have r2: "readFile env0 (fs_with text1) 2 (store_of a sess1) path0 (sys_db a) = read2"
    by (simp only: a1 a2 read2_def)
  have b: "b = commit a (snd read2)"
    by (simp only: b_def step.simps r2)
  have b1: "sys_db b = snd (snd read2)"
    by (simp only: b sys_db_commit)
  have b2: "store_of b sess1 = fst (snd read2)"
    unfolding b by (simp add: commit_def store_of_def read2_eval)
  have b3: "sys_initialized b sess2 = False"
    unfolding b using sessions_differ a3 by (simp add: commit_def read2_eval)
  have r3: "readFile env0 (fs_with text2) 3 (store_of b sess1) path0 (sys_db b) = read3"
    by (simp only: b1 b2 read3_def)
  have c: "c = commit b (snd read3)"
    by (simp only: c_def step.simps r3)
  have c1: "sys_db c = snd (snd read3)"
    by (simp only: c sys_db_commit)
  have c3: "sys_initialized c sess2 = False"
    unfolding c using sessions_differ b3 by (simp add: commit_def read3_eval)
  have run: "run env0 trace1 initial_system = c"
    by (simp only: trace1_def run.simps a_def b_def c_def)
  show "sys_db (run env0 trace1 initial_system) = snd (snd read3)"
    by (simp only: run c1)
  show "sys_initialized (run env0 trace1 initial_system) sess2 = False"
    by (simp only: run c3)
qed

lemma run_append: "run E (xs @ ys) sys = run E ys (run E xs sys)"
  by (induction xs arbitrary: sys) simp_all

lemma after_trace2:
  "sys_db (run env0 trace2 initial_system) =
     \<lparr>file_versions = [], session_reads = [],
      stats = [\<lparr>st_key = tokens_saved, st_value = 7\<rparr>],
      session_stats = [\<lparr>ss_session_id = sess1, ss_key = tokens_saved, ss_value = 7\<rparr>]\<rparr>"
proof -
  define t where "t = run env0 trace1 initial_system"
  define u where "u = step env0 (OnFileDeleted sess2 path0) t"
  have split: "run env0 trace2 initial_system = step env0 (GetStats sess2) u"
    by (simp only: trace2_def run_append run.simps t_def u_def)
  have res: "resolve env0 path0 = path0"
    by (simp add: env0_def)
  have t: "opened (store_of t sess2) (sys_db t) = snd (snd read3)"
    unfolding t_def
    by (simp add: opened_def store_of_def after_trace1 read3_eval SCHEMA_def
        sql_insert_or_ignore_def)
  have "sys_db u = snd (snd (onFileDeleted env0 (store_of t sess2) path0 (sys_db t)))"
    by (simp only: u_def step.simps sys_db_commit)
  also have "\<dots> = (snd (snd read3))\<lparr>
        file_versions := sql_delete (\<lambda>v. fv_path v = path0) (file_versions (sys_db t)),
        session_reads := sql_delete (\<lambda>r. sr_path r = path0) (session_reads (sys_db t))\<rparr>"
    by (simp only: onFileDeleted_db t res)
  also have "\<dots> =
     \<lparr>file_versions = [], session_reads = [],
      stats = [\<lparr>st_key = tokens_saved, st_value = 7\<rparr>],
      session_stats = [\<lparr>ss_session_id = sess1, ss_key = tokens_saved, ss_value = 7\<rparr>]\<rparr>"
    unfolding t_def by (simp add: after_trace1 read3_eval sql_delete_def)
  finally have u: "sys_db u =
     \<lparr>file_versions = [], session_reads = [],
      stats = [\<lparr>st_key = tokens_saved, st_value = 7\<rparr>],
      session_stats = [\<lparr>ss_session_id = sess1, ss_key = tokens_saved, ss_value = 7\<rparr>]\<rparr>" .
  have "sys_db (step env0 (GetStats sess2) u) = opened (store_of u sess2) (sys_db u)"
    by (simp only: step.simps sys_db_commit getStats_db)
  also have "\<dots> = sys_db u"
    unfolding u by (simp add: opened_def SCHEMA_def sql_insert_or_ignore_def)
  finally show ?thesis
    by (simp only: split u)
qed



theorem savings_counters_monotone_witness:
  "list_all (\<lambda>x. \<not> is_clear x) trace2
   \<and> global_saved (sys_db initial_system) = 0
   \<and> session_saved sess1 (sys_db initial_system) = 0
   \<and> global_saved (sys_db (run env0 trace2 initial_system)) = 7
   \<and> session_saved sess1 (sys_db (run env0 trace2 initial_system)) = 7
   \<and> estimateTokens text1 = 4 \<and> estimateTokens text2 = 6
   \<and> global_saved (sys_db (step env0 (Clear sess2) (run env0 trace2 initial_system))) = 0
   \<and> session_saved sess1 (sys_db (step env0 (Clear sess2) (run env0 trace2 initial_system))) = 0"
proof -
  have h: "list_all (\<lambda>x. \<not> is_clear x) trace2"
    by (simp add: trace2_def trace1_def)
  have e1: "global_saved (sys_db (run env0 trace2 initial_system)) = 7"
    by (simp add: after_trace2 global_saved_def sql_select_def)
  have e2: "session_saved sess1 (sys_db (run env0 trace2 initial_system)) = 7"
    by (simp add: after_trace2 session_saved_def sql_select_def)
  have e3: "estimateTokens text1 = 4" "estimateTokens text2 = 6"
    by (simp_all add: estimateTokens_code text1_def text2_def js_def)
  from savings_counters_monotone [where s = sess1 and ops = trace2 and sys = initial_system
      and E = env0 and s' = sess2 and sys' = "run env0 trace2 initial_system"
      and c = text1 and c' = text2] h e1 e2 e3
  show ?thesis by simp
qed

theorem session_pointers_refer_to_versions_witness:
  "session_reads (sys_db (run env0 trace1 initial_system)) =
       [\<lparr>sr_session_id = sess1, sr_path = path0, sr_hash = text2, sr_read_at = 3\<rparr>]
   \<and> stored_versions path0 text2 (sys_db (run env0 trace1 initial_system)) =
       [\<lparr>fv_path = path0, fv_hash = text2, fv_content = text2, fv_lines = 4, fv_created_at = 3\<rparr>]
   \<and> pointers_valid (sys_db (run env0 trace1 initial_system))
   \<and> pointers_valid
       (sys_db (step env0 (OnFileDeleted sess2 path0) (run env0 trace1 initial_system)))"
proof -
  have e1: "session_reads (sys_db (run env0 trace1 initial_system)) =
       [\<lparr>sr_session_id = sess1, sr_path = path0, sr_hash = text2, sr_read_at = 3\<rparr>]"
    by (simp add: after_trace1 read3_eval)
  have e2: "stored_versions path0 text2 (sys_db (run env0 trace1 initial_system)) =
       [\<lparr>fv_path = path0, fv_hash = text2, fv_content = text2, fv_lines = 4, fv_created_at = 3\<rparr>]"
    using texts_differ by (simp add: after_trace1 read3_eval stored_versions_def sql_select_def)
  from session_pointers_refer_to_versions [where E = env0 and ops = trace1
      and sys = "run env0 trace1 initial_system" and x = "OnFileDeleted sess2 path0"] e1 e2
  show ?thesis by simp
qed


end
